theory Spec2Isabelle
  imports Complex_Main "HOL-Library.AList" "HOL-Library.List_Lexorder" "HOL-Library.Char_ord"
begin

section \<open>Python errors as values\<close>

text \<open>
  Every exception the modelled code can raise is a value; a computation that may raise
  returns \<open>py_error + 'a\<close> with \<open>Inl\<close> for the exception.
\<close>

datatype py_error = KeyError string | TypeError | AttributeError | ZeroDivisionError

definition bind_e :: "'e + 'a \<Rightarrow> ('a \<Rightarrow> 'e + 'b) \<Rightarrow> 'e + 'b" where
  "bind_e m f = (case m of Inl e \<Rightarrow> Inl e | Inr a \<Rightarrow> f a)"

section \<open>The validator (normalized\_output/data\_validator.py)\<close>

subsection \<open>Record sets as the validator sees them\<close>

text \<open>
  A cell of a DataFrame row: Python \<open>None\<close>, the missing-value marker NaN, a finite
  number (comparisons of a number with the integer constants 0, 1 and 5 are exact, so a
  rational stands for an int or a float), or a string. A row maps column names to cells;
  \<open>row[field]\<close> raises KeyError for a column the frame does not have.
\<close>

datatype cell = CNone | CNaN | CNum rat | CStr string

type_synonym row = "(string \<times> cell) list"

type_synonym dataframe = "row list"

record report_entry =
  entry_id :: cell
  status :: string
  reasons :: "string list"

definition getitem :: "row \<Rightarrow> string \<Rightarrow> py_error + cell" where
  "getitem row field = (case map_of row field of None \<Rightarrow> Inl (KeyError field) | Some c \<Rightarrow> Inr c)"

text \<open>\<open>pd.isna\<close>: true of \<open>None\<close> and of NaN.\<close>

definition isna :: "cell \<Rightarrow> bool" where
  "isna c = (c = CNone \<or> c = CNaN)"

text \<open>
  Python's \<open>c < k\<close> and \<open>c > k\<close> for a number \<open>k\<close>: false on NaN, TypeError on
  \<open>None\<close> and on a string.
\<close>

fun py_lt :: "cell \<Rightarrow> rat \<Rightarrow> py_error + bool" where
  "py_lt (CNum q) k = Inr (q < k)"
| "py_lt CNaN k = Inr False"
| "py_lt CNone k = Inl TypeError"
| "py_lt (CStr s) k = Inl TypeError"

fun py_gt :: "cell \<Rightarrow> rat \<Rightarrow> py_error + bool" where
  "py_gt (CNum q) k = Inr (k < q)"
| "py_gt CNaN k = Inr False"
| "py_gt CNone k = Inl TypeError"
| "py_gt (CStr s) k = Inl TypeError"

definition VALID_DIFFICULTIES :: "cell set" where
  "VALID_DIFFICULTIES = {CStr ''Easy'', CStr ''Medium'', CStr ''Hard''}"

definition VALID_INTERACTION_TYPES :: "cell set" where
  "VALID_INTERACTION_TYPES = {CStr ''VIEW'', CStr ''LIKE'', CStr ''COOK_ATTEMPT''}"

subsection \<open>The per-row checks\<close>

text \<open>
  The state of one row's check is the pair \<open>(is_valid, reasons)\<close> of the source.
  \<open>fail\<close> is the two statements \<open>reasons.append(msg); is_valid = False\<close>.
  The parameter \<open>fmt\<close> is Python's formatting of a cell inside an f-string.
\<close>

type_synonym row_state = "bool \<times> string list"

definition fail :: "row_state \<Rightarrow> string \<Rightarrow> row_state" where
  "fail st msg = (False, snd st @ [msg])"

text \<open>Rule 1: \<open>for field in required_fields: if pd.isna(row[field]): ...\<close>\<close>

fun required_loop :: "row \<Rightarrow> string list \<Rightarrow> row_state \<Rightarrow> py_error + row_state" where
  "required_loop row [] st = Inr st"
| "required_loop row (field # more_fields) st =
     bind_e (getitem row field) (\<lambda>c.
       required_loop row more_fields
         (if isna c then fail st (''Missing required field: '' @ field) else st))"

text \<open>\<open>row[field] is not None and row[field] < k\<close>\<close>

definition not_none_and_lt :: "cell \<Rightarrow> rat \<Rightarrow> py_error + bool" where
  "not_none_and_lt c k = (if c = CNone then Inr False else py_lt c k)"

text \<open>Rule 2 of the recipe set: the loop over \<open>numeric_fields\<close>.\<close>

fun numeric_loop :: "(cell \<Rightarrow> string) \<Rightarrow> row \<Rightarrow> string list \<Rightarrow> row_state \<Rightarrow> py_error + row_state" where
  "numeric_loop fmt row [] st = Inr st"
| "numeric_loop fmt row (field # more_fields) st =
     bind_e (getitem row field) (\<lambda>c.
     bind_e (not_none_and_lt c 0) (\<lambda>neg.
       numeric_loop fmt row more_fields
         (if neg then fail st (''Field '' @ field @ '' must be positive, found: '' @ fmt c)
          else st)))"

text \<open>\<open>if not is_valid: validation_report.append({'id': row[key], ...})\<close>\<close>

definition report_if_invalid :: "row \<Rightarrow> string \<Rightarrow> row_state \<Rightarrow> py_error + report_entry option" where
  "report_if_invalid row key st =
     (if \<not> fst st
      then bind_e (getitem row key) (\<lambda>i.
             Inr (Some \<lparr>entry_id = i, status = ''INVALID'', reasons = snd st\<rparr>))
      else Inr None)"

definition check_recipe :: "(cell \<Rightarrow> string) \<Rightarrow> row \<Rightarrow> py_error + report_entry option" where
  "check_recipe fmt row =
     bind_e (required_loop row
        [''recipe_id'', ''name'', ''serves'', ''prep_time_minutes'', ''cook_time_minutes'',
         ''difficulty''] (True, [])) (\<lambda>st1.
     bind_e (numeric_loop fmt row [''serves'', ''prep_time_minutes'', ''cook_time_minutes''] st1)
       (\<lambda>st2.
     bind_e (getitem row ''difficulty'') (\<lambda>d.
       report_if_invalid row ''recipe_id''
         (if d \<notin> VALID_DIFFICULTIES then fail st2 (''Invalid difficulty value: '' @ fmt d)
          else st2))))"

definition check_ingredient :: "(cell \<Rightarrow> string) \<Rightarrow> row \<Rightarrow> py_error + report_entry option" where
  "check_ingredient fmt row =
     bind_e (required_loop row [''ingredient_pk_id'', ''recipe_id'', ''name'', ''quantity'']
        (True, [])) (\<lambda>st1.
     bind_e (getitem row ''quantity'') (\<lambda>q.
     bind_e (not_none_and_lt q 0) (\<lambda>neg.
       report_if_invalid row ''ingredient_pk_id''
         (if neg then fail st1 (''Quantity must be positive, found: '' @ fmt q) else st1))))"

definition check_step :: "(cell \<Rightarrow> string) \<Rightarrow> row \<Rightarrow> py_error + report_entry option" where
  "check_step fmt row =
     bind_e (required_loop row [''step_pk_id'', ''recipe_id'', ''step_number'', ''description'']
        (True, [])) (\<lambda>st1.
     bind_e (getitem row ''step_number'') (\<lambda>n.
     bind_e (not_none_and_lt n 1) (\<lambda>low.
       report_if_invalid row ''step_pk_id''
         (if low then fail st1 (''Step number must be positive, found: '' @ fmt n) else st1))))"

text \<open>
  \<open>pd.isna(row['rating']) or row['rating'] < 1 or row['rating'] > 5\<close>, with Python's
  short-circuit evaluation.
\<close>

definition rating_out_of_range :: "cell \<Rightarrow> py_error + bool" where
  "rating_out_of_range r =
     (if isna r then Inr True
      else bind_e (py_lt r 1) (\<lambda>low. if low then Inr True else py_gt r 5))"

text \<open>
  Rule 3 of the interaction set, the \<open>if ... elif ...\<close> of lines 128 to 134. The rating
  is read only when \<open>and\<close> reaches its second operand.
\<close>

definition rating_rule :: "(cell \<Rightarrow> string) \<Rightarrow> row \<Rightarrow> cell \<Rightarrow> row_state \<Rightarrow> py_error + row_state" where
  "rating_rule fmt row t st =
     (if t = CStr ''COOK_ATTEMPT''
      then bind_e (getitem row ''rating'') (\<lambda>r.
           bind_e (rating_out_of_range r) (\<lambda>bad.
             Inr (if bad then fail st ''Cook attempt must have a rating between 1 and 5.''
                  else st)))
      else bind_e (getitem row ''rating'') (\<lambda>r.
             Inr (if \<not> isna r
                  then fail st (''Interaction type '' @ fmt t @ '' should not have a rating.'')
                  else st)))"

definition check_interaction :: "(cell \<Rightarrow> string) \<Rightarrow> row \<Rightarrow> py_error + report_entry option" where
  "check_interaction fmt row =
     bind_e (required_loop row
        [''interaction_id'', ''user_id'', ''recipe_id'', ''interaction_type'', ''timestamp'']
        (True, [])) (\<lambda>st1.
     bind_e (getitem row ''interaction_type'') (\<lambda>t.
     bind_e (rating_rule fmt row t
        (if t \<notin> VALID_INTERACTION_TYPES then fail st1 (''Invalid interaction type: '' @ fmt t)
         else st1)) (\<lambda>st3.
       report_if_invalid row ''interaction_id'' st3)))"

subsection \<open>validate\_data\<close>

text \<open>\<open>for index, row in df.iterrows(): ...\<close>, appending to \<open>validation_report\<close>.\<close>

fun iterrows :: "(row \<Rightarrow> py_error + report_entry option) \<Rightarrow> dataframe \<Rightarrow> report_entry list
    \<Rightarrow> py_error + report_entry list" where
  "iterrows check [] validation_report = Inr validation_report"
| "iterrows check (row # rest) validation_report =
     bind_e (check row) (\<lambda>r.
       iterrows check rest
         (case r of None \<Rightarrow> validation_report | Some e \<Rightarrow> validation_report @ [e]))"

definition validate_data :: "(cell \<Rightarrow> string) \<Rightarrow> string \<Rightarrow> dataframe
    \<Rightarrow> py_error + (int \<times> int \<times> int \<times> report_entry list)" where
  "validate_data fmt file_key df =
     bind_e
       (if file_key = ''recipe'' then iterrows (check_recipe fmt) df []
        else if file_key = ''ingredients'' then iterrows (check_ingredient fmt) df []
        else if file_key = ''steps'' then iterrows (check_step fmt) df []
        else if file_key = ''interactions'' then iterrows (check_interaction fmt) df []
        else Inr [])
       (\<lambda>validation_report.
          let total_records = int (length df);
              invalid_records = int (length validation_report);
              valid_records = total_records - invalid_records
          in Inr (total_records, valid_records, invalid_records, validation_report))"

subsection \<open>run\_validator, for one input file\<close>

text \<open>
  Lines 181 to 187: the frame read from the file has the NaN cells of its \<open>rating\<close>
  column, when it has one, filled with \<open>-1\<close>, and is then validated. Reading a CSV file
  gives every row the same columns, so whether the column is there is asked of the frame.
\<close>

definition fillna_rating :: "row \<Rightarrow> row" where
  "fillna_rating row =
     (case map_of row ''rating'' of
        Some c \<Rightarrow> if isna c then AList.update ''rating'' (CNum (- 1)) row else row
      | None \<Rightarrow> row)"

definition run_validator_file :: "(cell \<Rightarrow> string) \<Rightarrow> string \<Rightarrow> dataframe
    \<Rightarrow> py_error + (int \<times> int \<times> int \<times> report_entry list)" where
  "run_validator_file fmt file_key df = validate_data fmt file_key (map fillna_rating df)"

subsection \<open>The rule table of the specification\<close>

text \<open>
  A second description of validation, following the rule table of the specification
  (section 4.2) rather than the loops of the source: every rule of a record set is
  evaluated on its own and each violated rule contributes its reason, in the order of the
  table. It is compared with \<open>validate_data\<close> below.
\<close>

definition cell_of :: "row \<Rightarrow> string \<Rightarrow> cell" where
  "cell_of row field = (case map_of row field of None \<Rightarrow> CNone | Some c \<Rightarrow> c)"

definition less_than :: "cell \<Rightarrow> rat \<Rightarrow> bool" where
  "less_than c k = (case c of CNum q \<Rightarrow> q < k | _ \<Rightarrow> False)"

definition outside_1_5 :: "cell \<Rightarrow> bool" where
  "outside_1_5 c = (case c of CNum q \<Rightarrow> q < 1 \<or> 5 < q | _ \<Rightarrow> False)"

definition missing_rule :: "row \<Rightarrow> string list \<Rightarrow> string list" where
  "missing_rule row fs =
     map (\<lambda>f. ''Missing required field: '' @ f) (filter (\<lambda>f. isna (cell_of row f)) fs)"

definition positivity_rule :: "(cell \<Rightarrow> string) \<Rightarrow> row \<Rightarrow> string list \<Rightarrow> string list" where
  "positivity_rule fmt row fs =
     map (\<lambda>f. ''Field '' @ f @ '' must be positive, found: '' @ fmt (cell_of row f))
       (filter (\<lambda>f. less_than (cell_of row f) 0) fs)"

definition rating_consistency_rule :: "(cell \<Rightarrow> string) \<Rightarrow> row \<Rightarrow> string list" where
  "rating_consistency_rule fmt row =
     (let t = cell_of row ''interaction_type''; r = cell_of row ''rating''
      in if t = CStr ''COOK_ATTEMPT'' \<and> (isna r \<or> outside_1_5 r)
         then [''Cook attempt must have a rating between 1 and 5.'']
         else if t \<noteq> CStr ''COOK_ATTEMPT'' \<and> \<not> isna r
         then [''Interaction type '' @ fmt t @ '' should not have a rating.'']
         else [])"

definition rule_violations :: "(cell \<Rightarrow> string) \<Rightarrow> string \<Rightarrow> row \<Rightarrow> string list" where
  "rule_violations fmt file_key row =
     (if file_key = ''recipe'' then
        missing_rule row [''recipe_id'', ''name'', ''serves'', ''prep_time_minutes'',
          ''cook_time_minutes'', ''difficulty'']
        @ positivity_rule fmt row [''serves'', ''prep_time_minutes'', ''cook_time_minutes'']
        @ (if cell_of row ''difficulty'' \<notin> VALID_DIFFICULTIES
           then [''Invalid difficulty value: '' @ fmt (cell_of row ''difficulty'')] else [])
      else if file_key = ''ingredients'' then
        missing_rule row [''ingredient_pk_id'', ''recipe_id'', ''name'', ''quantity'']
        @ (if less_than (cell_of row ''quantity'') 0
           then [''Quantity must be positive, found: '' @ fmt (cell_of row ''quantity'')]
           else [])
      else if file_key = ''steps'' then
        missing_rule row [''step_pk_id'', ''recipe_id'', ''step_number'', ''description'']
        @ (if less_than (cell_of row ''step_number'') 1
           then [''Step number must be positive, found: '' @ fmt (cell_of row ''step_number'')]
           else [])
      else if file_key = ''interactions'' then
        missing_rule row [''interaction_id'', ''user_id'', ''recipe_id'', ''interaction_type'',
          ''timestamp'']
        @ (if cell_of row ''interaction_type'' \<notin> VALID_INTERACTION_TYPES
           then [''Invalid interaction type: '' @ fmt (cell_of row ''interaction_type'')]
           else [])
        @ rating_consistency_rule fmt row
      else [])"

definition record_key :: "string \<Rightarrow> string" where
  "record_key file_key =
     (if file_key = ''recipe'' then ''recipe_id''
      else if file_key = ''ingredients'' then ''ingredient_pk_id''
      else if file_key = ''steps'' then ''step_pk_id''
      else ''interaction_id'')"

definition invalid_entry :: "(cell \<Rightarrow> string) \<Rightarrow> string \<Rightarrow> row \<Rightarrow> report_entry" where
  "invalid_entry fmt file_key row =
     \<lparr>entry_id = cell_of row (record_key file_key), status = ''INVALID'',
      reasons = rule_violations fmt file_key row\<rparr>"

definition expected_report :: "(cell \<Rightarrow> string) \<Rightarrow> string \<Rightarrow> dataframe \<Rightarrow> report_entry list" where
  "expected_report fmt file_key df =
     map (invalid_entry fmt file_key) (filter (\<lambda>row. rule_violations fmt file_key row \<noteq> []) df)"

text \<open>The verdict of the rule table on one row.\<close>

definition row_verdict :: "(cell \<Rightarrow> string) \<Rightarrow> string \<Rightarrow> row \<Rightarrow> report_entry option" where
  "row_verdict fmt file_key row =
     (if rule_violations fmt file_key row = [] then None
      else Some (invalid_entry fmt file_key row))"

text \<open>
  A frame whose shape lets validation run to its end: the columns the rules read are
  there and no cell compared with a number holds a string.
\<close>

definition numeric_cell :: "cell \<Rightarrow> bool" where
  "numeric_cell c = (case c of CStr s \<Rightarrow> False | _ \<Rightarrow> True)"

definition has_columns :: "row \<Rightarrow> string list \<Rightarrow> bool" where
  "has_columns row fs = list_all (\<lambda>f. map_of row f \<noteq> None) fs"

definition well_shaped :: "string \<Rightarrow> row \<Rightarrow> bool" where
  "well_shaped file_key row =
     (if file_key = ''recipe'' then
        has_columns row [''recipe_id'', ''name'', ''serves'', ''prep_time_minutes'',
          ''cook_time_minutes'', ''difficulty'']
        \<and> list_all (\<lambda>f. numeric_cell (cell_of row f))
             [''serves'', ''prep_time_minutes'', ''cook_time_minutes'']
      else if file_key = ''ingredients'' then
        has_columns row [''ingredient_pk_id'', ''recipe_id'', ''name'', ''quantity'']
        \<and> numeric_cell (cell_of row ''quantity'')
      else if file_key = ''steps'' then
        has_columns row [''step_pk_id'', ''recipe_id'', ''step_number'', ''description'']
        \<and> numeric_cell (cell_of row ''step_number'')
      else if file_key = ''interactions'' then
        has_columns row [''interaction_id'', ''user_id'', ''recipe_id'', ''interaction_type'',
          ''timestamp'', ''rating'']
        \<and> (cell_of row ''interaction_type'' = CStr ''COOK_ATTEMPT''
             \<longrightarrow> numeric_cell (cell_of row ''rating''))
      else True)"

subsection \<open>Example frames\<close>

text \<open>
  A formatting function for running the model on concrete frames (strings as they are,
  every number as a placeholder), a recipe frame whose two rows both violate rules, and
  an interaction frame with one violating row.
\<close>

definition fmt_example :: "cell \<Rightarrow> string" where
  "fmt_example c = (case c of CStr s \<Rightarrow> s | CNone \<Rightarrow> ''None'' | CNaN \<Rightarrow> ''nan'' | CNum q \<Rightarrow> ''#'')"

definition example_recipe_frame :: dataframe where
  "example_recipe_frame =
     [[(''recipe_id'', CStr ''r1''), (''name'', CNaN), (''serves'', CNum (- 2)),
       (''prep_time_minutes'', CNum 10), (''cook_time_minutes'', CNum 20),
       (''difficulty'', CStr ''Intense'')],
      [(''recipe_id'', CStr ''r2''), (''name'', CStr ''Rice''), (''serves'', CNum 4),
       (''prep_time_minutes'', CNaN), (''cook_time_minutes'', CNum 20),
       (''difficulty'', CStr ''Easy'')]]"

definition example_interaction_frame :: dataframe where
  "example_interaction_frame =
     [[(''interaction_id'', CStr ''i1''), (''user_id'', CStr ''u1''), (''recipe_id'', CStr ''r1''),
       (''interaction_type'', CStr ''COOK_ATTEMPT''), (''rating'', CNum 6),
       (''timestamp'', CNaN)],
      [(''interaction_id'', CStr ''i2''), (''user_id'', CStr ''u1''), (''recipe_id'', CStr ''r1''),
       (''interaction_type'', CStr ''COOK_ATTEMPT''), (''rating'', CNum 4),
       (''timestamp'', CStr ''t2'')]]"

section \<open>The normalizer (firestore\_etl\_direct.py)\<close>

subsection \<open>Documents\<close>

text \<open>
  A value of a document as the document store hands it over: null, a boolean, an integer,
  a (finite) float, a string, a timestamp, an array or a nested map. A timestamp carries
  the string its \<open>isoformat()\<close> returns. A dictionary is an association list, in
  insertion order.
\<close>

datatype pyval = VNone | VBool bool | VInt int | VFloat rat | VStr string | VTime string
  | VList "pyval list" | VDict "(string \<times> pyval) list"

type_synonym pydict = "(string \<times> pyval) list"

text \<open>Python's truth value, as \<open>if x\<close> and \<open>not x\<close> take it.\<close>

fun truthy :: "pyval \<Rightarrow> bool" where
  "truthy VNone = False"
| "truthy (VBool b) = b"
| "truthy (VInt i) = (i \<noteq> 0)"
| "truthy (VFloat q) = (q \<noteq> 0)"
| "truthy (VStr s) = (s \<noteq> [])"
| "truthy (VTime t) = True"
| "truthy (VList xs) = (xs \<noteq> [])"
| "truthy (VDict d) = (d \<noteq> [])"

text \<open>\<open>d.get(k)\<close> and \<open>d.get(k, default)\<close> on a dictionary.\<close>

definition dict_get :: "pydict \<Rightarrow> string \<Rightarrow> pyval" where
  "dict_get d k = (case map_of d k of None \<Rightarrow> VNone | Some v \<Rightarrow> v)"

definition dict_get_default :: "pydict \<Rightarrow> string \<Rightarrow> pyval \<Rightarrow> pyval" where
  "dict_get_default d k dflt = (case map_of d k of None \<Rightarrow> dflt | Some v \<Rightarrow> v)"

text \<open>
  The same method calls on a value of any type: \<open>v.get(k)\<close> and \<open>v.isoformat()\<close>
  raise AttributeError on a value without the method, and a \<open>for\<close> loop raises TypeError
  over a value that is not iterable. Iterating a string gives its characters, iterating a
  dictionary its keys.
\<close>

fun py_get :: "pyval \<Rightarrow> string \<Rightarrow> py_error + pyval" where
  "py_get (VDict d) k = Inr (dict_get d k)"
| "py_get v k = Inl AttributeError"

fun isoformat :: "pyval \<Rightarrow> py_error + pyval" where
  "isoformat (VTime t) = Inr (VStr t)"
| "isoformat v = Inl AttributeError"

fun py_iter :: "pyval \<Rightarrow> py_error + pyval list" where
  "py_iter (VList xs) = Inr xs"
| "py_iter (VStr s) = Inr (map (\<lambda>c. VStr [c]) s)"
| "py_iter (VDict d) = Inr (map (\<lambda>kv. VStr (fst kv)) d)"
| "py_iter v = Inl TypeError"

subsection \<open>The loop over the recipe documents\<close>

text \<open>
  The three accumulating lists of the source, and the number of calls of
  \<open>uuid.uuid4()\<close> made so far. The parameter \<open>uuid4\<close> gives the string the n-th call
  returns in this run.
\<close>

record norm_state =
  normalized_recipes :: "pydict list"
  normalized_ingredients :: "pydict list"
  normalized_steps :: "pydict list"
  uuid_calls :: nat

text \<open>Lines 66 to 75: the Recipe record.\<close>

definition recipe_record :: "pydict \<Rightarrow> pyval \<Rightarrow> py_error + pydict" where
  "recipe_record recipe_doc recipe_id =
     bind_e (if truthy (dict_get recipe_doc ''created_at'')
             then isoformat (dict_get recipe_doc ''created_at'') else Inr VNone) (\<lambda>created_at.
       Inr [(''recipe_id'', recipe_id),
            (''name'', dict_get recipe_doc ''name''),
            (''serves'', dict_get recipe_doc ''serves''),
            (''prep_time_minutes'', dict_get recipe_doc ''prep_time_minutes''),
            (''cook_time_minutes'', dict_get recipe_doc ''cook_time_minutes''),
            (''difficulty'', dict_get recipe_doc ''difficulty''),
            (''created_at'', created_at)])"

text \<open>Lines 79 to 85: the Ingredient record, with the key of the n-th call of uuid4.\<close>

definition ingredient_record :: "(nat \<Rightarrow> string) \<Rightarrow> pyval \<Rightarrow> pyval \<Rightarrow> nat \<Rightarrow> py_error + pydict" where
  "ingredient_record uuid4 recipe_id ingredient n =
     bind_e (py_get ingredient ''name'') (\<lambda>name.
     bind_e (py_get ingredient ''quantity'') (\<lambda>quantity.
     bind_e (py_get ingredient ''unit'') (\<lambda>unit.
       Inr [(''ingredient_pk_id'', VStr (uuid4 n)),
            (''recipe_id'', recipe_id),
            (''name'', name),
            (''quantity'', quantity),
            (''unit'', unit)])))"

fun ingredients_loop :: "(nat \<Rightarrow> string) \<Rightarrow> pyval \<Rightarrow> pyval list \<Rightarrow> norm_state
    \<Rightarrow> py_error + norm_state" where
  "ingredients_loop uuid4 recipe_id [] st = Inr st"
| "ingredients_loop uuid4 recipe_id (ingredient # rest) st =
     bind_e (ingredient_record uuid4 recipe_id ingredient (uuid_calls st)) (\<lambda>r.
       ingredients_loop uuid4 recipe_id rest
         (st\<lparr>normalized_ingredients := normalized_ingredients st @ [r],
             uuid_calls := Suc (uuid_calls st)\<rparr>))"

text \<open>Lines 89 to 94: the Step record.\<close>

definition step_record :: "(nat \<Rightarrow> string) \<Rightarrow> pyval \<Rightarrow> pyval \<Rightarrow> nat \<Rightarrow> py_error + pydict" where
  "step_record uuid4 recipe_id step n =
     bind_e (py_get step ''step_number'') (\<lambda>step_number.
     bind_e (py_get step ''description'') (\<lambda>description.
       Inr [(''step_pk_id'', VStr (uuid4 n)),
            (''recipe_id'', recipe_id),
            (''step_number'', step_number),
            (''description'', description)]))"

fun steps_loop :: "(nat \<Rightarrow> string) \<Rightarrow> pyval \<Rightarrow> pyval list \<Rightarrow> norm_state
    \<Rightarrow> py_error + norm_state" where
  "steps_loop uuid4 recipe_id [] st = Inr st"
| "steps_loop uuid4 recipe_id (step # rest) st =
     bind_e (step_record uuid4 recipe_id step (uuid_calls st)) (\<lambda>r.
       steps_loop uuid4 recipe_id rest
         (st\<lparr>normalized_steps := normalized_steps st @ [r],
             uuid_calls := Suc (uuid_calls st)\<rparr>))"

text \<open>
  The body of the loop of line 57. A document whose \<open>recipe_id\<close> is falsy is skipped
  (\<open>continue\<close>) after a message is printed.
\<close>

definition normalize_recipe :: "(nat \<Rightarrow> string) \<Rightarrow> pydict \<Rightarrow> norm_state \<Rightarrow> py_error + norm_state" where
  "normalize_recipe uuid4 recipe_doc st =
     (let recipe_id = dict_get recipe_doc ''recipe_id''
      in if \<not> truthy recipe_id then Inr st
         else
           bind_e (recipe_record recipe_doc recipe_id) (\<lambda>r.
           bind_e (py_iter (dict_get_default recipe_doc ''ingredients'' (VList []))) (\<lambda>ingredients.
           bind_e (ingredients_loop uuid4 recipe_id ingredients
                     (st\<lparr>normalized_recipes := normalized_recipes st @ [r]\<rparr>)) (\<lambda>st1.
           bind_e (py_iter (dict_get_default recipe_doc ''steps'' (VList []))) (\<lambda>steps.
             steps_loop uuid4 recipe_id steps st1)))))"

fun recipes_loop :: "(nat \<Rightarrow> string) \<Rightarrow> pydict list \<Rightarrow> norm_state \<Rightarrow> py_error + norm_state" where
  "recipes_loop uuid4 [] st = Inr st"
| "recipes_loop uuid4 (recipe_doc # rest) st =
     bind_e (normalize_recipe uuid4 recipe_doc st) (recipes_loop uuid4 rest)"

subsection \<open>The loop over the interaction documents\<close>

text \<open>
  Lines 100 to 103 assign to the input dictionary itself:
  \<open>interaction['timestamp'] = interaction['timestamp'].isoformat()\<close>. The loop returns
  the documents as the assignment leaves them.
\<close>

definition convert_timestamp :: "pydict \<Rightarrow> py_error + pydict" where
  "convert_timestamp interaction =
     (if truthy (dict_get interaction ''timestamp'')
      then bind_e (isoformat (dict_get interaction ''timestamp'')) (\<lambda>s.
             Inr (AList.update ''timestamp'' s interaction))
      else Inr interaction)"

fun interactions_loop :: "pydict list \<Rightarrow> py_error + pydict list" where
  "interactions_loop [] = Inr []"
| "interactions_loop (interaction # rest) =
     bind_e (convert_timestamp interaction) (\<lambda>interaction'.
     bind_e (interactions_loop rest) (\<lambda>rest'.
       Inr (interaction' # rest')))"

subsection \<open>transform\_and\_normalize\<close>

text \<open>
  The result holds the four frames (a frame built from a list of dictionaries is that
  list of rows), and what the two arguments hold after the call, for a caller that kept
  references to them.
\<close>

record transform_result =
  recipe_df :: "pydict list"
  ingredients_df :: "pydict list"
  steps_df :: "pydict list"
  interactions_df :: "pydict list"
  recipes_data_after :: "pydict list"
  interactions_data_after :: "pydict list"

definition transform_and_normalize :: "(nat \<Rightarrow> string) \<Rightarrow> pydict list \<Rightarrow> pydict list
    \<Rightarrow> py_error + transform_result" where
  "transform_and_normalize uuid4 recipes_data interactions_data =
     bind_e (recipes_loop uuid4 recipes_data
        \<lparr>normalized_recipes = [], normalized_ingredients = [], normalized_steps = [],
         uuid_calls = 0\<rparr>) (\<lambda>st.
     bind_e (interactions_loop interactions_data) (\<lambda>interactions_data'.
       Inr \<lparr>recipe_df = normalized_recipes st,
            ingredients_df = normalized_ingredients st,
            steps_df = normalized_steps st,
            interactions_df = interactions_data',
            recipes_data_after = recipes_data,
            interactions_data_after = interactions_data'\<rparr>))"

text \<open>The four frames of a result, or the exception.\<close>

definition frames_of :: "py_error + transform_result
    \<Rightarrow> py_error + (pydict list \<times> pydict list \<times> pydict list \<times> pydict list)" where
  "frames_of res = map_sum id (\<lambda>r. (recipe_df r, ingredients_df r, steps_df r, interactions_df r)) res"

text \<open>
  What one recipe document asks for: a retained document (truthy \<open>recipe_id\<close>) asks for as
  many Ingredient rows as its \<open>ingredients\<close> entry has elements and as many Step rows as
  its \<open>steps\<close> entry has, each with the document's \<open>recipe_id\<close>; a skipped document
  asks for none.
\<close>

definition entries :: "pydict \<Rightarrow> string \<Rightarrow> pyval list option" where
  "entries recipe_doc k =
     (case py_iter (dict_get_default recipe_doc k (VList [])) of
        Inl e \<Rightarrow> None | Inr xs \<Rightarrow> Some xs)"

definition rows_for_document :: "pydict \<Rightarrow> pydict list \<Rightarrow> pydict list \<Rightarrow> bool" where
  "rows_for_document recipe_doc irows srows =
     (if truthy (dict_get recipe_doc ''recipe_id'')
      then (case (entries recipe_doc ''ingredients'', entries recipe_doc ''steps'') of
              (Some xs, Some ys) \<Rightarrow>
                length irows = length xs \<and> length srows = length ys
                \<and> list_all (\<lambda>r. dict_get r ''recipe_id'' = dict_get recipe_doc ''recipe_id'')
                     (irows @ srows)
            | _ \<Rightarrow> False)
      else irows = [] \<and> srows = [])"

text \<open>The surrogate keys of a run, those of the Ingredient rows before those of the Step rows.\<close>

definition surrogate_keys :: "pydict list \<Rightarrow> pydict list \<Rightarrow> pyval list" where
  "surrogate_keys irows srows =
     map (\<lambda>r. dict_get r ''ingredient_pk_id'') irows @ map (\<lambda>r. dict_get r ''step_pk_id'') srows"

text \<open>
  Documents on which normalization runs to its end: \<open>created_at\<close> and \<open>timestamp\<close> are
  timestamps when they are truthy, and the embedded arrays are lists of dictionaries.
\<close>

definition is_dict :: "pyval \<Rightarrow> bool" where
  "is_dict v = (case v of VDict d \<Rightarrow> True | _ \<Rightarrow> False)"

definition timestamp_or_falsy :: "pyval \<Rightarrow> bool" where
  "timestamp_or_falsy v = (case v of VTime t \<Rightarrow> True | _ \<Rightarrow> \<not> truthy v)"

definition list_of_dicts :: "pyval \<Rightarrow> bool" where
  "list_of_dicts v = (case v of VList xs \<Rightarrow> list_all is_dict xs | _ \<Rightarrow> False)"

definition well_formed_recipe :: "pydict \<Rightarrow> bool" where
  "well_formed_recipe recipe_doc =
     (timestamp_or_falsy (dict_get recipe_doc ''created_at'')
      \<and> list_of_dicts (dict_get_default recipe_doc ''ingredients'' (VList []))
      \<and> list_of_dicts (dict_get_default recipe_doc ''steps'' (VList [])))"

definition well_formed_interaction :: "pydict \<Rightarrow> bool" where
  "well_formed_interaction interaction = timestamp_or_falsy (dict_get interaction ''timestamp'')"

text \<open>
  What the loop over the interactions does to one input document: a truthy timestamp is
  replaced, in the document itself, by its ISO string; a document without a truthy
  timestamp is left as it is.
\<close>

definition converted_in_place :: "pydict \<Rightarrow> pydict \<Rightarrow> bool" where
  "converted_in_place d d' =
     (if truthy (dict_get d ''timestamp'')
      then (case dict_get d ''timestamp'' of
              VTime t \<Rightarrow> d' = AList.update ''timestamp'' (VStr t) d
            | _ \<Rightarrow> False)
      else d' = d)"

subsection \<open>The documents as objects of a store\<close>

text \<open>
  A caller that keeps references to its documents sees objects, not values. In this second
  reading of the same lines every dictionary is an object at an address of a store, and the
  two arguments are lists of addresses. A dictionary display (lines 66, 79 and 89) creates
  a new object at the next free address, and \<open>append\<close> puts that address on the list;
  \<open>recipe_doc.get\<close> reads the object the loop variable refers to; the assignment of
  line 103 writes to the object the loop variable refers to. The values inside a document
  (the embedded ingredient and step maps among them) are only read, so they stay values.
\<close>

type_synonym addr = nat

record ref_state =
  heap :: "addr \<Rightarrow> pydict"
  next_addr :: addr
  normalized_recipes_refs :: "addr list"
  normalized_ingredients_refs :: "addr list"
  normalized_steps_refs :: "addr list"
  uuid_calls_refs :: nat

fun ingredients_loop_refs :: "(nat \<Rightarrow> string) \<Rightarrow> pyval \<Rightarrow> pyval list \<Rightarrow> ref_state
    \<Rightarrow> py_error + ref_state" where
  "ingredients_loop_refs uuid4 recipe_id [] s = Inr s"
| "ingredients_loop_refs uuid4 recipe_id (ingredient # rest) s =
     bind_e (ingredient_record uuid4 recipe_id ingredient (uuid_calls_refs s)) (\<lambda>r.
       ingredients_loop_refs uuid4 recipe_id rest
         (s\<lparr>heap := (heap s)(next_addr s := r),
            next_addr := Suc (next_addr s),
            normalized_ingredients_refs := normalized_ingredients_refs s @ [next_addr s],
            uuid_calls_refs := Suc (uuid_calls_refs s)\<rparr>))"

fun steps_loop_refs :: "(nat \<Rightarrow> string) \<Rightarrow> pyval \<Rightarrow> pyval list \<Rightarrow> ref_state
    \<Rightarrow> py_error + ref_state" where
  "steps_loop_refs uuid4 recipe_id [] s = Inr s"
| "steps_loop_refs uuid4 recipe_id (step # rest) s =
     bind_e (step_record uuid4 recipe_id step (uuid_calls_refs s)) (\<lambda>r.
       steps_loop_refs uuid4 recipe_id rest
         (s\<lparr>heap := (heap s)(next_addr s := r),
            next_addr := Suc (next_addr s),
            normalized_steps_refs := normalized_steps_refs s @ [next_addr s],
            uuid_calls_refs := Suc (uuid_calls_refs s)\<rparr>))"

definition normalize_recipe_refs :: "(nat \<Rightarrow> string) \<Rightarrow> addr \<Rightarrow> ref_state \<Rightarrow> py_error + ref_state" where
  "normalize_recipe_refs uuid4 recipe_doc s =
     (let recipe_id = dict_get (heap s recipe_doc) ''recipe_id''
      in if \<not> truthy recipe_id then Inr s
         else
           bind_e (recipe_record (heap s recipe_doc) recipe_id) (\<lambda>r.
           bind_e (py_iter (dict_get_default (heap s recipe_doc) ''ingredients'' (VList []))) (\<lambda>ingredients.
           bind_e (ingredients_loop_refs uuid4 recipe_id ingredients
                     (s\<lparr>heap := (heap s)(next_addr s := r),
                        next_addr := Suc (next_addr s),
                        normalized_recipes_refs := normalized_recipes_refs s @ [next_addr s]\<rparr>)) (\<lambda>s1.
           bind_e (py_iter (dict_get_default (heap s1 recipe_doc) ''steps'' (VList []))) (\<lambda>steps.
             steps_loop_refs uuid4 recipe_id steps s1)))))"

fun recipes_loop_refs :: "(nat \<Rightarrow> string) \<Rightarrow> addr list \<Rightarrow> ref_state \<Rightarrow> py_error + ref_state" where
  "recipes_loop_refs uuid4 [] s = Inr s"
| "recipes_loop_refs uuid4 (recipe_doc # rest) s =
     bind_e (normalize_recipe_refs uuid4 recipe_doc s) (recipes_loop_refs uuid4 rest)"

text \<open>Lines 100 to 103: the converted document is stored where the input document is.\<close>

fun interactions_loop_refs :: "addr list \<Rightarrow> ref_state \<Rightarrow> py_error + ref_state" where
  "interactions_loop_refs [] s = Inr s"
| "interactions_loop_refs (interaction # rest) s =
     bind_e (convert_timestamp (heap s interaction)) (\<lambda>d.
       interactions_loop_refs rest (s\<lparr>heap := (heap s)(interaction := d)\<rparr>))"

text \<open>
  The call, on a store \<open>h\<close> whose objects are the addresses below \<open>n\<close>. Lines 106 to 109
  read the rows of the four frames from the store as the two loops leave it; the result
  is the four frames and the final state, whose store is what the caller's references
  now show.
\<close>

definition transform_and_normalize_refs :: "(nat \<Rightarrow> string) \<Rightarrow> (addr \<Rightarrow> pydict) \<Rightarrow> addr
    \<Rightarrow> addr list \<Rightarrow> addr list
    \<Rightarrow> py_error + ((pydict list \<times> pydict list \<times> pydict list \<times> pydict list) \<times> ref_state)" where
  "transform_and_normalize_refs uuid4 h n recipes_data interactions_data =
     bind_e (recipes_loop_refs uuid4 recipes_data
        \<lparr>heap = h, next_addr = n, normalized_recipes_refs = [],
         normalized_ingredients_refs = [], normalized_steps_refs = [],
         uuid_calls_refs = 0\<rparr>) (\<lambda>s1.
     bind_e (interactions_loop_refs interactions_data s1) (\<lambda>s2.
       Inr ((map (heap s2) (normalized_recipes_refs s2),
             map (heap s2) (normalized_ingredients_refs s2),
             map (heap s2) (normalized_steps_refs s2),
             map (heap s2) interactions_data), s2)))"

text \<open>The objects the three accumulating lists refer to, in one list.\<close>

definition new_records :: "ref_state \<Rightarrow> addr list" where
  "new_records s =
     normalized_recipes_refs s @ normalized_ingredients_refs s @ normalized_steps_refs s"

text \<open>
  The invariant of the loop over the recipe documents, for a call on a store \<open>h\<close> whose
  objects are the addresses below \<open>n\<close>: the objects that existed before the call hold
  what they held, and the three lists refer to exactly the objects created since, one
  entry each.
\<close>

definition allocated :: "addr \<Rightarrow> (addr \<Rightarrow> pydict) \<Rightarrow> ref_state \<Rightarrow> bool" where
  "allocated n h s =
     (n \<le> next_addr s \<and> (\<forall>a < n. heap s a = h a)
      \<and> set (new_records s) = {n ..< next_addr s}
      \<and> length (new_records s) = next_addr s - n)"

text \<open>The rows the three lists refer to are the rows the three lists of values hold.\<close>

definition same_rows :: "ref_state \<Rightarrow> norm_state \<Rightarrow> bool" where
  "same_rows s st =
     (map (heap s) (normalized_recipes_refs s) = normalized_recipes st
      \<and> map (heap s) (normalized_ingredients_refs s) = normalized_ingredients st
      \<and> map (heap s) (normalized_steps_refs s) = normalized_steps st
      \<and> uuid_calls_refs s = uuid_calls st)"


text \<open>A key generator for running the model on concrete inputs: call n returns n+1 letters.\<close>

definition uuid_example :: "nat \<Rightarrow> string" where
  "uuid_example n = replicate (Suc n) CHR ''k''"


section \<open>The insight engine (analytics\_script.py)\<close>

subsection \<open>Record sets and the pandas operations used\<close>

text \<open>
  The columns the modelled insights read. Key columns hold strings, as the data model has
  them; the \<open>recipe_id\<close> of a Step row read from the steps file may also be null
  (\<open>None\<close>). The field names carry a letter for their record set, since
  \<open>recipe_id\<close> is a column of all three.
\<close>

record recipe =
  r_recipe_id :: string
  r_name :: string

record interaction =
  i_user_id :: string
  i_recipe_id :: string
  i_interaction_type :: string

record step =
  s_recipe_id :: "string option"

text \<open>
  \<open>groupby(key).size()\<close>: one row per distinct key, in ascending key order (group keys
  are sorted), with the number of rows of the group.
\<close>

definition groupby_size :: "string list \<Rightarrow> (string \<times> nat) list" where
  "groupby_size keys = map (\<lambda>k. (k, count_list keys k)) (sort (remdups keys))"

text \<open>
  \<open>pd.merge(left, right, on=key)\<close>, an inner join: the rows of the left frame in their
  order, each paired with the rows of the right frame that have its key, in their order.
\<close>

definition pd_merge :: "('a \<Rightarrow> string) \<Rightarrow> ('b \<Rightarrow> string) \<Rightarrow> 'a list \<Rightarrow> 'b list \<Rightarrow> ('a \<times> 'b) list" where
  "pd_merge lkey rkey left right =
     concat (map (\<lambda>l. map (\<lambda>r. (l, r)) (filter (\<lambda>r. rkey r = lkey l) right)) left)"

text \<open>
  \<open>sort_values(by=col, ascending=False)\<close>, as a sort that keeps rows with equal values
  in the order they arrive in. Insight 11 takes only the first row of the sorted frame; the
  specification's ranking of insight 5 (ties in first-encountered order) is this sort.
\<close>

fun insert_desc :: "('a \<Rightarrow> nat) \<Rightarrow> 'a \<Rightarrow> 'a list \<Rightarrow> 'a list" where
  "insert_desc f x [] = [x]"
| "insert_desc f x (y # ys) = (if f y \<le> f x then x # y # ys else y # insert_desc f x ys)"

definition sort_values_desc :: "('a \<Rightarrow> nat) \<Rightarrow> 'a list \<Rightarrow> 'a list" where
  "sort_values_desc f xs = foldr (insert_desc f) xs []"

text \<open>
  \<open>set_index(k)[v].to_dict()\<close>: a dictionary built row by row; a key met again keeps its
  place and takes the later value.
\<close>

definition to_dict :: "(string \<times> 'v) list \<Rightarrow> (string \<times> 'v) list" where
  "to_dict rows = fold (\<lambda>kv d. AList.update (fst kv) (snd kv) d) rows []"

text \<open>\<open>drop_duplicates(subset=...)\<close>: of the rows equal on the subset, the first stays.\<close>

fun drop_duplicates_from :: "('a \<Rightarrow> 'k) \<Rightarrow> 'k list \<Rightarrow> 'a list \<Rightarrow> 'a list" where
  "drop_duplicates_from key seen [] = []"
| "drop_duplicates_from key seen (x # xs) =
     (if key x \<in> set seen then drop_duplicates_from key seen xs
      else x # drop_duplicates_from key (key x # seen) xs)"

definition drop_duplicates :: "('a \<Rightarrow> 'k) \<Rightarrow> 'a list \<Rightarrow> 'a list" where
  "drop_duplicates key xs = drop_duplicates_from key [] xs"

definition of_type :: "string \<Rightarrow> interaction list \<Rightarrow> interaction list" where
  "of_type t interactions = filter (\<lambda>i. i_interaction_type i = t) interactions"

subsection \<open>Insight 5: most frequently viewed recipes\<close>

text \<open>Lines 166 to 176. A row of the merged frame is ((recipe\_id, total\_views), recipe).\<close>

definition views_per_recipe :: "interaction list \<Rightarrow> (string \<times> nat) list" where
  "views_per_recipe interactions = groupby_size (map i_recipe_id (of_type ''VIEW'' interactions))"

definition views_merged :: "recipe list \<Rightarrow> interaction list \<Rightarrow> ((string \<times> nat) \<times> recipe) list" where
  "views_merged recipes interactions =
     pd_merge fst r_recipe_id (views_per_recipe interactions) recipes"

text \<open>
  Line 170 sorts with \<open>sort_values(by='total_views', ascending=False)\<close> and the default
  sort kind, which returns the rows in descending order of the count and promises nothing
  about the order of rows with equal counts. The sort is therefore a parameter of the
  model, \<open>sort_values\<close>, of which only this is assumed: its result is a rearrangement
  of its argument, in descending order of the count.
\<close>

type_synonym views_row = "(string \<times> nat) \<times> recipe"


definition views_ranked :: "(views_row list \<Rightarrow> views_row list) \<Rightarrow> recipe list \<Rightarrow> interaction list
    \<Rightarrow> views_row list" where
  "views_ranked sort_values recipes interactions =
     take 5 (sort_values (views_merged recipes interactions))"

definition insight5 :: "(views_row list \<Rightarrow> views_row list) \<Rightarrow> recipe list \<Rightarrow> interaction list
    \<Rightarrow> (string \<times> nat) list" where
  "insight5 sort_values recipes interactions =
     to_dict (map (\<lambda>row. (r_name (snd row), snd (fst row)))
       (views_ranked sort_values recipes interactions))"

text \<open>The sort that keeps rows with equal counts in the order they arrive in.\<close>

definition stable_sort_by_views :: "views_row list \<Rightarrow> views_row list" where
  "stable_sort_by_views rows = sort_values_desc (\<lambda>row. snd (fst row)) rows"

text \<open>
  The ranking the specification describes, for comparison: the same computation, but with
  the recipes counted in the order in which the VIEW interactions first mention them, so
  that recipes with equal counts stay in first-encountered order.
\<close>

definition first_encountered :: "string list \<Rightarrow> string list" where
  "first_encountered keys = rev (remdups (rev keys))"

definition insight5_first_encountered :: "recipe list \<Rightarrow> interaction list \<Rightarrow> (string \<times> nat) list" where
  "insight5_first_encountered recipes interactions =
     (let keys = map i_recipe_id (of_type ''VIEW'' interactions);
          counts = map (\<lambda>k. (k, count_list keys k)) (first_encountered keys)
      in to_dict (map (\<lambda>row. (r_name (snd row), snd (fst row)))
           (take 5 (sort_values_desc (\<lambda>row. snd (fst row))
              (pd_merge fst r_recipe_id counts recipes)))))"


subsection \<open>Insight 8: average number of steps per recipe\<close>

text \<open>
  Line 205: \<open>steps_df.groupby('recipe_id').size().mean().round(2)\<close>, on the frame read
  from the steps file. \<open>groupby\<close> leaves out the rows whose key is null. The mean of the
  group sizes and its rounding are floating-point operations: the parameter \<open>round2\<close>
  stands for the rounding to two decimals and is handed the exact quotient. When there is
  no group, \<open>mean()\<close> returns the Python float nan, which has no method \<open>round\<close>: the
  line raises AttributeError.
\<close>

definition dropna :: "'a option list \<Rightarrow> 'a list" where
  "dropna ks = List.map_filter (\<lambda>k. k) ks"

definition mean_group_size :: "step list \<Rightarrow> rat option" where
  "mean_group_size steps =
     (let sizes = map snd (groupby_size (dropna (map s_recipe_id steps)))
      in if sizes = [] then None
         else Some (of_nat (sum_list sizes) / of_nat (length sizes)))"

definition insight8 :: "(rat \<Rightarrow> 'r) \<Rightarrow> step list \<Rightarrow> py_error + 'r" where
  "insight8 round2 steps =
     (case mean_group_size steps of
        None \<Rightarrow> Inl AttributeError
      | Some q \<Rightarrow> Inr (round2 q))"

text \<open>
  The quotient as the specification words it, for comparison: all Step rows over the
  distinct recipe\_ids that appear.
\<close>

definition insight8_as_claimed :: "(rat \<Rightarrow> 'r) \<Rightarrow> step list \<Rightarrow> 'r" where
  "insight8_as_claimed round2 steps =
     round2 (of_nat (length steps) / of_nat (length (remdups (dropna (map s_recipe_id steps)))))"

text \<open>
  Rounding to two decimals on exact rationals, half to even, for running the model on
  concrete record sets.
\<close>

definition round_half_even :: "rat \<Rightarrow> int" where
  "round_half_even q =
     (let f = \<lfloor>q\<rfloor>; d = q - of_int f
      in if d < 1 / 2 then f else if 1 / 2 < d then f + 1 else if even f then f else f + 1)"

definition round_2dp :: "rat \<Rightarrow> rat" where
  "round_2dp q = of_int (round_half_even (q * 100)) / 100"

definition example_steps :: "step list" where
  "example_steps =
     [\<lparr>s_recipe_id = Some ''R1''\<rparr>, \<lparr>s_recipe_id = Some ''R1''\<rparr>,
      \<lparr>s_recipe_id = Some ''R2''\<rparr>, \<lparr>s_recipe_id = None\<rparr>]"

subsection \<open>Insight 10: share of recipes with a cook attempt\<close>

text \<open>
  Lines 221 to 224. Both operands of the division are Python integers, so a zero
  \<open>total_recipes\<close> raises ZeroDivisionError. The result is the rounded percentage with
  the two counts that the result string reports.
\<close>

definition insight10 :: "(rat \<Rightarrow> 'r) \<Rightarrow> recipe list \<Rightarrow> interaction list \<Rightarrow> py_error + ('r \<times> nat \<times> nat)" where
  "insight10 round2 recipes interactions =
     (let total_recipes = length recipes;
          attempted_recipes =
            length (remdups (map i_recipe_id (of_type ''COOK_ATTEMPT'' interactions)))
      in if total_recipes = 0 then Inl ZeroDivisionError
         else Inr (round2 (of_nat attempted_recipes / of_nat total_recipes * 100),
                   attempted_recipes, total_recipes))"

subsection \<open>Insight 11: most liked recipe by unique users\<close>

text \<open>Lines 233 to 244. A row of the merged frame is (recipe, (recipe\_id, unique\_likes)).\<close>

definition unique_likes :: "interaction list \<Rightarrow> (string \<times> nat) list" where
  "unique_likes interactions =
     groupby_size (map i_recipe_id
       (drop_duplicates (\<lambda>i. (i_recipe_id i, i_user_id i)) (of_type ''LIKE'' interactions)))"

definition most_unique_liked :: "recipe list \<Rightarrow> interaction list \<Rightarrow> (recipe \<times> (string \<times> nat)) list" where
  "most_unique_liked recipes interactions =
     take 1 (sort_values_desc (\<lambda>row. snd (snd row))
       (pd_merge r_recipe_id fst recipes (unique_likes interactions)))"

definition insight11 :: "recipe list \<Rightarrow> interaction list \<Rightarrow> (string \<times> nat) list" where
  "insight11 recipes interactions =
     to_dict (map (\<lambda>row. (r_name (fst row), snd (snd row)))
       (most_unique_liked recipes interactions))"

text \<open>The number of distinct users with a LIKE interaction on a recipe.\<close>

definition distinct_likers :: "interaction list \<Rightarrow> string \<Rightarrow> nat" where
  "distinct_likers interactions rid =
     card (i_user_id ` {i \<in> set interactions.
        i_interaction_type i = ''LIKE'' \<and> i_recipe_id i = rid})"

subsection \<open>Example record sets\<close>

text \<open>
  The example of the specification (section 8): two VIEW interactions on R1 ("Rice") and one
  on R2 ("Curry"). And six recipes with one VIEW interaction each, R6 met first and R1 last
  in both record sets.
\<close>

definition example_recipes :: "recipe list" where
  "example_recipes =
     [\<lparr>r_recipe_id = ''R1'', r_name = ''Rice''\<rparr>, \<lparr>r_recipe_id = ''R2'', r_name = ''Curry''\<rparr>]"

definition view_of :: "string \<Rightarrow> interaction" where
  "view_of rid = \<lparr>i_user_id = ''u1'', i_recipe_id = rid, i_interaction_type = ''VIEW''\<rparr>"

definition example_views :: "interaction list" where
  "example_views = [view_of ''R1'', view_of ''R1'', view_of ''R2'']"

definition tied_recipes :: "recipe list" where
  "tied_recipes =
     [\<lparr>r_recipe_id = ''R6'', r_name = ''n6''\<rparr>, \<lparr>r_recipe_id = ''R5'', r_name = ''n5''\<rparr>,
      \<lparr>r_recipe_id = ''R4'', r_name = ''n4''\<rparr>, \<lparr>r_recipe_id = ''R3'', r_name = ''n3''\<rparr>,
      \<lparr>r_recipe_id = ''R2'', r_name = ''n2''\<rparr>, \<lparr>r_recipe_id = ''R1'', r_name = ''n1''\<rparr>]"

definition tied_views :: "interaction list" where
  "tied_views =
     [view_of ''R6'', view_of ''R5'', view_of ''R4'', view_of ''R3'', view_of ''R2'', view_of ''R1'']"

text \<open>
  LIKE interactions for the six recipes: user u1 likes R2 three times; u1 and u2 each like
  R3 once.
\<close>

definition like_of :: "string \<Rightarrow> string \<Rightarrow> interaction" where
  "like_of user rid = \<lparr>i_user_id = user, i_recipe_id = rid, i_interaction_type = ''LIKE''\<rparr>"

definition example_likes :: "interaction list" where
  "example_likes =
     [like_of ''u1'' ''R2'', like_of ''u1'' ''R2'', like_of ''u2'' ''R3'', like_of ''u1'' ''R3'',
      like_of ''u1'' ''R2'']"

section \<open>Properties of the validator\<close>

lemma bind_e_Inr [simp]: "bind_e (Inr a) f = f a"
  by (simp add: bind_e_def)

lemma bind_e_Inl [simp]: "bind_e (Inl e) f = Inl e"
  by (simp add: bind_e_def)

lemma bind_e_eq_Inr: "bind_e m f = Inr b \<longleftrightarrow> (\<exists>a. m = Inr a \<and> f a = Inr b)"
  by (cases m) simp_all

subsection \<open>The loops compute the rule table\<close>

lemma getitem_Inr: "getitem row f = Inr c \<Longrightarrow> cell_of row f = c"
  by (auto simp: getitem_def cell_of_def split: option.splits)

lemma required_loop_eq:
  "required_loop row fs st = Inr st' \<Longrightarrow>
   st' = (fst st \<and> missing_rule row fs = [], snd st @ missing_rule row fs)"
proof (induction fs arbitrary: st)
  case Nil
  then show ?case by (simp add: missing_rule_def)
next
  case (Cons f fs)
  from Cons.prems obtain c where c: "getitem row f = Inr c"
    and r: "required_loop row fs (if isna c then fail st (''Missing required field: '' @ f) else st) = Inr st'"
    by (auto simp: bind_e_eq_Inr)
  from Cons.IH[OF r] getitem_Inr[OF c] show ?case
    by (auto simp: missing_rule_def fail_def)
qed

lemma not_none_and_lt_Inr: "not_none_and_lt c k = Inr b \<Longrightarrow> b = less_than c k"
  by (cases c) (auto simp: not_none_and_lt_def less_than_def)

lemma numeric_loop_eq:
  "numeric_loop fmt row fs st = Inr st' \<Longrightarrow>
   st' = (fst st \<and> positivity_rule fmt row fs = [], snd st @ positivity_rule fmt row fs)"
proof (induction fs arbitrary: st)
  case Nil
  then show ?case by (simp add: positivity_rule_def)
next
  case (Cons f fs)
  from Cons.prems obtain c neg where c: "getitem row f = Inr c"
    and n: "not_none_and_lt c 0 = Inr neg"
    and r: "numeric_loop fmt row fs (if neg then fail st (''Field '' @ f @ '' must be positive, found: '' @ fmt c) else st) = Inr st'"
    by (auto simp: bind_e_eq_Inr)
  from Cons.IH[OF r] getitem_Inr[OF c] not_none_and_lt_Inr[OF n] show ?case
    by (auto simp: positivity_rule_def fail_def)
qed


lemma report_if_invalid_eq:
  "report_if_invalid row key st = Inr r \<Longrightarrow>
   r = (if fst st then None
        else Some \<lparr>entry_id = cell_of row key, status = ''INVALID'', reasons = snd st\<rparr>)"
  by (auto simp: report_if_invalid_def bind_e_eq_Inr dest: getitem_Inr split: if_splits)

lemma check_recipe_eq:
  assumes "check_recipe fmt row = Inr r"
  shows "r = row_verdict fmt ''recipe'' row"
proof -
  from assms obtain st1 st2 d where
    1: "required_loop row [''recipe_id'', ''name'', ''serves'', ''prep_time_minutes'',
          ''cook_time_minutes'', ''difficulty''] (True, []) = Inr st1"
    and 2: "numeric_loop fmt row [''serves'', ''prep_time_minutes'', ''cook_time_minutes''] st1
          = Inr st2"
    and 3: "getitem row ''difficulty'' = Inr d"
    and 4: "report_if_invalid row ''recipe_id''
         (if d \<notin> VALID_DIFFICULTIES then fail st2 (''Invalid difficulty value: '' @ fmt d)
          else st2) = Inr r"
    unfolding check_recipe_def bind_e_eq_Inr by blast
  note e1 = required_loop_eq[OF 1] and e2 = numeric_loop_eq[OF 2] and e3 = getitem_Inr[OF 3]
    and e4 = report_if_invalid_eq[OF 4]
  show ?thesis
    unfolding e4 e2 e1 row_verdict_def invalid_entry_def rule_violations_def record_key_def
    using e3 by (auto simp: fail_def)
qed

lemma check_ingredient_eq:
  assumes "check_ingredient fmt row = Inr r"
  shows "r = row_verdict fmt ''ingredients'' row"
proof -
  from assms obtain st1 q neg where
    1: "required_loop row [''ingredient_pk_id'', ''recipe_id'', ''name'', ''quantity'']
          (True, []) = Inr st1"
    and 2: "getitem row ''quantity'' = Inr q"
    and 3: "not_none_and_lt q 0 = Inr neg"
    and 4: "report_if_invalid row ''ingredient_pk_id''
         (if neg then fail st1 (''Quantity must be positive, found: '' @ fmt q) else st1) = Inr r"
    unfolding check_ingredient_def bind_e_eq_Inr by blast
  note e1 = required_loop_eq[OF 1] and e2 = getitem_Inr[OF 2] and e3 = not_none_and_lt_Inr[OF 3]
    and e4 = report_if_invalid_eq[OF 4]
  show ?thesis
    unfolding e4 e1 row_verdict_def invalid_entry_def rule_violations_def record_key_def
    using e2 e3 by (auto simp: fail_def)
qed

lemma check_step_eq:
  assumes "check_step fmt row = Inr r"
  shows "r = row_verdict fmt ''steps'' row"
proof -
  from assms obtain st1 n low where
    1: "required_loop row [''step_pk_id'', ''recipe_id'', ''step_number'', ''description'']
          (True, []) = Inr st1"
    and 2: "getitem row ''step_number'' = Inr n"
    and 3: "not_none_and_lt n 1 = Inr low"
    and 4: "report_if_invalid row ''step_pk_id''
         (if low then fail st1 (''Step number must be positive, found: '' @ fmt n) else st1) = Inr r"
    unfolding check_step_def bind_e_eq_Inr by blast
  note e1 = required_loop_eq[OF 1] and e2 = getitem_Inr[OF 2] and e3 = not_none_and_lt_Inr[OF 3]
    and e4 = report_if_invalid_eq[OF 4]
  show ?thesis
    unfolding e4 e1 row_verdict_def invalid_entry_def rule_violations_def record_key_def
    using e2 e3 by (auto simp: fail_def)
qed

lemma rating_out_of_range_Inr:
  "rating_out_of_range r = Inr bad \<Longrightarrow> bad = (isna r \<or> outside_1_5 r)"
  by (cases r) (auto simp: rating_out_of_range_def isna_def outside_1_5_def split: if_splits)

lemma rating_rule_eq:
  assumes "rating_rule fmt row t st = Inr st'" and "cell_of row ''interaction_type'' = t"
  shows "st' = (fst st \<and> rating_consistency_rule fmt row = [],
                snd st @ rating_consistency_rule fmt row)"
proof (cases "t = CStr ''COOK_ATTEMPT''")
  case True
  with assms(1) obtain r bad where r: "getitem row ''rating'' = Inr r"
    and b: "rating_out_of_range r = Inr bad"
    and s: "st' = (if bad then fail st ''Cook attempt must have a rating between 1 and 5.'' else st)"
    by (auto simp: rating_rule_def bind_e_eq_Inr)
  from getitem_Inr[OF r] rating_out_of_range_Inr[OF b] s True assms(2) show ?thesis
    by (auto simp: rating_consistency_rule_def fail_def)
next
  case False
  with assms(1) obtain r where r: "getitem row ''rating'' = Inr r"
    and s: "st' = (if \<not> isna r
                  then fail st (''Interaction type '' @ fmt t @ '' should not have a rating.'')
                  else st)"
    by (auto simp: rating_rule_def bind_e_eq_Inr)
  from getitem_Inr[OF r] s False assms(2) show ?thesis
    by (auto simp: rating_consistency_rule_def fail_def)
qed

lemma check_interaction_eq:
  assumes "check_interaction fmt row = Inr r"
  shows "r = row_verdict fmt ''interactions'' row"
proof -
  from assms obtain st1 t st3 where
    1: "required_loop row [''interaction_id'', ''user_id'', ''recipe_id'', ''interaction_type'',
          ''timestamp''] (True, []) = Inr st1"
    and 2: "getitem row ''interaction_type'' = Inr t"
    and 3: "rating_rule fmt row t
        (if t \<notin> VALID_INTERACTION_TYPES then fail st1 (''Invalid interaction type: '' @ fmt t)
         else st1) = Inr st3"
    and 4: "report_if_invalid row ''interaction_id'' st3 = Inr r"
    unfolding check_interaction_def bind_e_eq_Inr by blast
  note e1 = required_loop_eq[OF 1] and e2 = getitem_Inr[OF 2]
  note e3 = rating_rule_eq[OF 3 e2] and e4 = report_if_invalid_eq[OF 4]
  show ?thesis
    unfolding e4 e3 e1 row_verdict_def invalid_entry_def rule_violations_def record_key_def
    using e2 by (auto simp: fail_def)
qed

lemma iterrows_eq:
  assumes "\<And>row r. check row = Inr r \<Longrightarrow> r = g row"
  shows "iterrows check df acc = Inr rep \<Longrightarrow> rep = acc @ List.map_filter g df"
proof (induction df arbitrary: acc)
  case Nil
  then show ?case by (simp add: List.map_filter_simps)
next
  case (Cons row df)
  from Cons.prems obtain r where c: "check row = Inr r"
    and it: "iterrows check df (case r of None \<Rightarrow> acc | Some e \<Rightarrow> acc @ [e]) = Inr rep"
    by (auto simp: bind_e_eq_Inr)
  from assms[OF c] Cons.IH[OF it] show ?case
    by (cases "g row") (simp_all add: List.map_filter_simps)
qed

lemma map_filter_row_verdict:
  "List.map_filter (row_verdict fmt file_key) df = expected_report fmt file_key df"
  by (induction df) (simp_all add: List.map_filter_simps row_verdict_def expected_report_def)

lemma length_expected_report: "length (expected_report fmt file_key df) \<le> length df"
  by (simp add: expected_report_def)

lemma validate_data_report:
  assumes "validate_data fmt file_key df = Inr (total_count, valid_count, invalid_count, report)"
  shows "report = expected_report fmt file_key df"
proof -
  from assms obtain rep where rep:
    "(if file_key = ''recipe'' then iterrows (check_recipe fmt) df []
        else if file_key = ''ingredients'' then iterrows (check_ingredient fmt) df []
        else if file_key = ''steps'' then iterrows (check_step fmt) df []
        else if file_key = ''interactions'' then iterrows (check_interaction fmt) df []
        else Inr []) = Inr rep" and r: "report = rep"
    by (auto simp: validate_data_def bind_e_eq_Inr Let_def)
  have "rep = List.map_filter (row_verdict fmt file_key) df"
  proof -
    consider "file_key = ''recipe''" | "file_key = ''ingredients''" | "file_key = ''steps''"
      | "file_key = ''interactions''"
      | "file_key \<notin> {''recipe'', ''ingredients'', ''steps'', ''interactions''}" by auto
    then show ?thesis
    proof cases
      case 1
      with rep iterrows_eq[of "check_recipe fmt" "row_verdict fmt ''recipe''" df "[]" rep]
      show ?thesis by (simp add: check_recipe_eq)
    next
      case 2
      with rep iterrows_eq[of "check_ingredient fmt" "row_verdict fmt ''ingredients''" df "[]" rep]
      show ?thesis by (simp add: check_ingredient_eq)
    next
      case 3
      with rep iterrows_eq[of "check_step fmt" "row_verdict fmt ''steps''" df "[]" rep]
      show ?thesis by (simp add: check_step_eq)
    next
      case 4
      with rep iterrows_eq[of "check_interaction fmt" "row_verdict fmt ''interactions''" df "[]" rep]
      show ?thesis by (simp add: check_interaction_eq)
    next
      case 5
      then have "rule_violations fmt file_key = (\<lambda>row. [])"
        by (auto simp: rule_violations_def)
      with 5 rep show ?thesis
        by (simp add: map_filter_row_verdict expected_report_def)
    qed
  qed
  with r show ?thesis by (simp add: map_filter_row_verdict)
qed

lemma validate_data_Inr_counts:
  assumes "validate_data fmt file_key df = Inr (total_count, valid_count, invalid_count, report)"
  shows "total_count = int (length df) \<and> invalid_count = int (length report)
         \<and> valid_count + invalid_count = total_count \<and> 0 \<le> valid_count
         \<and> report = expected_report fmt file_key df"
proof -
  have r: "report = expected_report fmt file_key df"
    using assms by (rule validate_data_report)
  from assms have "total_count = int (length df)" "invalid_count = int (length report)"
    "valid_count = total_count - invalid_count"
    by (auto simp: validate_data_def bind_e_eq_Inr Let_def)
  with r length_expected_report[of fmt file_key df] show ?thesis by simp
qed

text \<open>Evaluation of the validator on concrete frames.\<close>

lemmas validator_eval =
  validate_data_def run_validator_file_def fillna_rating_def check_interaction_def
  check_recipe_def check_ingredient_def check_step_def rating_rule_def rating_out_of_range_def
  report_if_invalid_def getitem_def isna_def fail_def not_none_and_lt_def
  VALID_INTERACTION_TYPES_def VALID_DIFFICULTIES_def Let_def

subsection \<open>Validation of a well-shaped frame returns\<close>

lemma required_loop_returns:
  "has_columns row fs \<Longrightarrow> \<exists>st'. required_loop row fs st = Inr st'"
  by (induction fs arbitrary: st) (auto simp: has_columns_def getitem_def split: option.splits)

lemma getitem_cell_of: "map_of row f \<noteq> None \<Longrightarrow> getitem row f = Inr (cell_of row f)"
  by (auto simp: getitem_def cell_of_def)

lemma not_none_and_lt_returns: "numeric_cell c \<Longrightarrow> \<exists>b. not_none_and_lt c k = Inr b"
  by (cases c) (auto simp: numeric_cell_def not_none_and_lt_def)

lemma numeric_loop_returns:
  "has_columns row fs \<Longrightarrow> list_all (\<lambda>f. numeric_cell (cell_of row f)) fs
   \<Longrightarrow> \<exists>st'. numeric_loop fmt row fs st = Inr st'"
proof (induction fs arbitrary: st)
  case Nil
  then show ?case by simp
next
  case (Cons f fs)
  then have g: "getitem row f = Inr (cell_of row f)"
    by (simp add: has_columns_def getitem_cell_of)
  from Cons.prems obtain b where b: "not_none_and_lt (cell_of row f) 0 = Inr b"
    using not_none_and_lt_returns by fastforce
  from Cons show ?case by (simp add: g b has_columns_def)
qed

lemma report_if_invalid_returns:
  "map_of row key \<noteq> None \<Longrightarrow> \<exists>r. report_if_invalid row key st = Inr r"
  by (simp add: report_if_invalid_def getitem_cell_of)

lemma rating_out_of_range_returns: "numeric_cell c \<Longrightarrow> \<exists>b. rating_out_of_range c = Inr b"
  by (cases c) (auto simp: numeric_cell_def rating_out_of_range_def isna_def)

lemma check_recipe_returns:
  assumes "well_shaped ''recipe'' row"
  shows "\<exists>r. check_recipe fmt row = Inr r"
proof -
  from assms have cols: "has_columns row [''recipe_id'', ''name'', ''serves'',
      ''prep_time_minutes'', ''cook_time_minutes'', ''difficulty'']"
    and nums: "list_all (\<lambda>f. numeric_cell (cell_of row f))
      [''serves'', ''prep_time_minutes'', ''cook_time_minutes'']"
    by (simp_all add: well_shaped_def)
  from cols have cols2: "has_columns row [''serves'', ''prep_time_minutes'', ''cook_time_minutes'']"
    and d: "map_of row ''difficulty'' \<noteq> None" and k: "map_of row ''recipe_id'' \<noteq> None"
    by (simp_all add: has_columns_def)
  from required_loop_returns[OF cols] obtain st1 where 1:
    "required_loop row [''recipe_id'', ''name'', ''serves'', ''prep_time_minutes'',
       ''cook_time_minutes'', ''difficulty''] (True, []) = Inr st1" by blast
  from numeric_loop_returns[OF cols2 nums] obtain st2 where 2:
    "numeric_loop fmt row [''serves'', ''prep_time_minutes'', ''cook_time_minutes''] st1 = Inr st2"
    by blast
  show ?thesis
    unfolding check_recipe_def 1 2 bind_e_Inr getitem_cell_of[OF d]
    by (rule report_if_invalid_returns[OF k])
qed

lemma check_ingredient_returns:
  assumes "well_shaped ''ingredients'' row"
  shows "\<exists>r. check_ingredient fmt row = Inr r"
proof -
  from assms have cols: "has_columns row [''ingredient_pk_id'', ''recipe_id'', ''name'',
      ''quantity'']" and num: "numeric_cell (cell_of row ''quantity'')"
    by (simp_all add: well_shaped_def)
  from cols have q: "map_of row ''quantity'' \<noteq> None" and k: "map_of row ''ingredient_pk_id'' \<noteq> None"
    by (simp_all add: has_columns_def)
  from required_loop_returns[OF cols] obtain st1 where 1:
    "required_loop row [''ingredient_pk_id'', ''recipe_id'', ''name'', ''quantity'']
       (True, []) = Inr st1" by blast
  from not_none_and_lt_returns[OF num] obtain b where 2:
    "not_none_and_lt (cell_of row ''quantity'') 0 = Inr b" by blast
  show ?thesis
    unfolding check_ingredient_def 1 2 bind_e_Inr getitem_cell_of[OF q]
    by (rule report_if_invalid_returns[OF k])
qed

lemma check_step_returns:
  assumes "well_shaped ''steps'' row"
  shows "\<exists>r. check_step fmt row = Inr r"
proof -
  from assms have cols: "has_columns row [''step_pk_id'', ''recipe_id'', ''step_number'',
      ''description'']" and num: "numeric_cell (cell_of row ''step_number'')"
    by (simp_all add: well_shaped_def)
  from cols have q: "map_of row ''step_number'' \<noteq> None" and k: "map_of row ''step_pk_id'' \<noteq> None"
    by (simp_all add: has_columns_def)
  from required_loop_returns[OF cols] obtain st1 where 1:
    "required_loop row [''step_pk_id'', ''recipe_id'', ''step_number'', ''description'']
       (True, []) = Inr st1" by blast
  from not_none_and_lt_returns[OF num] obtain b where 2:
    "not_none_and_lt (cell_of row ''step_number'') 1 = Inr b" by blast
  show ?thesis
    unfolding check_step_def 1 2 bind_e_Inr getitem_cell_of[OF q]
    by (rule report_if_invalid_returns[OF k])
qed

lemma rating_rule_returns:
  assumes "map_of row ''rating'' \<noteq> None"
    and "t = CStr ''COOK_ATTEMPT'' \<longrightarrow> numeric_cell (cell_of row ''rating'')"
  shows "\<exists>st'. rating_rule fmt row t st = Inr st'"
proof (cases "t = CStr ''COOK_ATTEMPT''")
  case True
  with assms(2) rating_out_of_range_returns obtain b where
    "rating_out_of_range (cell_of row ''rating'') = Inr b" by blast
  with True show ?thesis
    by (simp add: rating_rule_def getitem_cell_of[OF assms(1)])
next
  case False
  then show ?thesis
    by (simp add: rating_rule_def getitem_cell_of[OF assms(1)])
qed

lemma check_interaction_returns:
  assumes "well_shaped ''interactions'' row"
  shows "\<exists>r. check_interaction fmt row = Inr r"
proof -
  from assms have cols: "has_columns row [''interaction_id'', ''user_id'', ''recipe_id'',
      ''interaction_type'', ''timestamp'', ''rating'']"
    and num: "cell_of row ''interaction_type'' = CStr ''COOK_ATTEMPT''
      \<longrightarrow> numeric_cell (cell_of row ''rating'')"
    by (simp_all add: well_shaped_def)
  from cols have cols1: "has_columns row [''interaction_id'', ''user_id'', ''recipe_id'',
      ''interaction_type'', ''timestamp'']"
    and t: "map_of row ''interaction_type'' \<noteq> None" and r: "map_of row ''rating'' \<noteq> None"
    and k: "map_of row ''interaction_id'' \<noteq> None"
    by (simp_all add: has_columns_def)
  from required_loop_returns[OF cols1] obtain st1 where 1:
    "required_loop row [''interaction_id'', ''user_id'', ''recipe_id'', ''interaction_type'',
       ''timestamp''] (True, []) = Inr st1" by blast
  from rating_rule_returns[OF r num] obtain st3 where 3:
    "rating_rule fmt row (cell_of row ''interaction_type'')
        (if cell_of row ''interaction_type'' \<notin> VALID_INTERACTION_TYPES
         then fail st1 (''Invalid interaction type: '' @ fmt (cell_of row ''interaction_type''))
         else st1) = Inr st3" by blast
  show ?thesis
    unfolding check_interaction_def 1 bind_e_Inr getitem_cell_of[OF t] 3
    by (rule report_if_invalid_returns[OF k])
qed

lemma iterrows_returns:
  "\<forall>row \<in> set df. \<exists>r. check row = Inr r \<Longrightarrow> \<exists>rep. iterrows check df acc = Inr rep"
proof (induction df arbitrary: acc)
  case Nil
  then show ?case by simp
next
  case (Cons row df)
  then obtain r where "check row = Inr r" by auto
  with Cons show ?case by simp
qed

lemma validate_data_returns:
  assumes "list_all (well_shaped file_key) df"
  shows "\<exists>result. validate_data fmt file_key df = Inr result"
proof -
  from assms have ws: "\<forall>row \<in> set df. well_shaped file_key row"
    by (simp add: list_all_iff)
  have "\<exists>rep. (if file_key = ''recipe'' then iterrows (check_recipe fmt) df []
        else if file_key = ''ingredients'' then iterrows (check_ingredient fmt) df []
        else if file_key = ''steps'' then iterrows (check_step fmt) df []
        else if file_key = ''interactions'' then iterrows (check_interaction fmt) df []
        else Inr []) = Inr rep"
  proof -
    consider "file_key = ''recipe''" | "file_key = ''ingredients''" | "file_key = ''steps''"
      | "file_key = ''interactions''"
      | "file_key \<notin> {''recipe'', ''ingredients'', ''steps'', ''interactions''}" by auto
    then show ?thesis
    proof cases
      case 1
      with ws have "\<forall>row \<in> set df. \<exists>r. check_recipe fmt row = Inr r"
        using check_recipe_returns by blast
      from iterrows_returns[OF this] 1 show ?thesis by simp
    next
      case 2
      with ws have "\<forall>row \<in> set df. \<exists>r. check_ingredient fmt row = Inr r"
        using check_ingredient_returns by blast
      from iterrows_returns[OF this] 2 show ?thesis by simp
    next
      case 3
      with ws have "\<forall>row \<in> set df. \<exists>r. check_step fmt row = Inr r"
        using check_step_returns by blast
      from iterrows_returns[OF this] 3 show ?thesis by simp
    next
      case 4
      with ws have "\<forall>row \<in> set df. \<exists>r. check_interaction fmt row = Inr r"
        using check_interaction_returns by blast
      from iterrows_returns[OF this] 4 show ?thesis by simp
    next
      case 5
      then show ?thesis by simp
    qed
  qed
  then obtain rep where "(if file_key = ''recipe'' then iterrows (check_recipe fmt) df []
        else if file_key = ''ingredients'' then iterrows (check_ingredient fmt) df []
        else if file_key = ''steps'' then iterrows (check_step fmt) df []
        else if file_key = ''interactions'' then iterrows (check_interaction fmt) df []
        else Inr []) = Inr rep" by blast
  then show ?thesis
    unfolding validate_data_def by (simp add: Let_def)
qed

subsection \<open>Validation returns on well-shaped frames only\<close>

lemma getitem_Inr_col: "getitem row f = Inr c \<Longrightarrow> map_of row f \<noteq> None"
  by (auto simp: getitem_def split: option.splits)

lemma required_loop_Inr_cols:
  "required_loop row fs st = Inr st' \<Longrightarrow> has_columns row fs"
proof (induction fs arbitrary: st)
  case Nil
  then show ?case by (simp add: has_columns_def)
next
  case (Cons f fs)
  from Cons.prems obtain c where c: "getitem row f = Inr c"
    and r: "required_loop row fs (if isna c then fail st (''Missing required field: '' @ f) else st) = Inr st'"
    by (auto simp: bind_e_eq_Inr)
  from Cons.IH[OF r] getitem_Inr_col[OF c] show ?case by (simp add: has_columns_def)
qed

lemma not_none_and_lt_Inr_numeric: "not_none_and_lt c k = Inr b \<Longrightarrow> numeric_cell c"
  by (cases c) (simp_all add: not_none_and_lt_def numeric_cell_def)

lemma numeric_loop_Inr_numeric:
  "numeric_loop fmt row fs st = Inr st' \<Longrightarrow> list_all (\<lambda>f. numeric_cell (cell_of row f)) fs"
proof (induction fs arbitrary: st)
  case Nil
  then show ?case by simp
next
  case (Cons f fs)
  from Cons.prems obtain c neg where c: "getitem row f = Inr c"
    and n: "not_none_and_lt c 0 = Inr neg"
    and r: "numeric_loop fmt row fs (if neg then fail st (''Field '' @ f @ '' must be positive, found: '' @ fmt c) else st) = Inr st'"
    by (auto simp: bind_e_eq_Inr)
  from Cons.IH[OF r] getitem_Inr[OF c] not_none_and_lt_Inr_numeric[OF n] show ?case by simp
qed

lemma check_recipe_Inr_shape:
  assumes "check_recipe fmt row = Inr r"
  shows "well_shaped ''recipe'' row"
proof -
  from assms obtain st1 st2 where
    1: "required_loop row [''recipe_id'', ''name'', ''serves'', ''prep_time_minutes'',
          ''cook_time_minutes'', ''difficulty''] (True, []) = Inr st1"
    and 2: "numeric_loop fmt row [''serves'', ''prep_time_minutes'', ''cook_time_minutes''] st1
          = Inr st2"
    unfolding check_recipe_def bind_e_eq_Inr by blast
  from required_loop_Inr_cols[OF 1] numeric_loop_Inr_numeric[OF 2] show ?thesis
    by (simp add: well_shaped_def)
qed

lemma check_ingredient_Inr_shape:
  assumes "check_ingredient fmt row = Inr r"
  shows "well_shaped ''ingredients'' row"
proof -
  from assms obtain st1 q neg where
    1: "required_loop row [''ingredient_pk_id'', ''recipe_id'', ''name'', ''quantity'']
          (True, []) = Inr st1"
    and 2: "getitem row ''quantity'' = Inr q"
    and 3: "not_none_and_lt q 0 = Inr neg"
    unfolding check_ingredient_def bind_e_eq_Inr by blast
  from required_loop_Inr_cols[OF 1] getitem_Inr[OF 2] not_none_and_lt_Inr_numeric[OF 3]
  show ?thesis by (simp add: well_shaped_def)
qed

lemma check_step_Inr_shape:
  assumes "check_step fmt row = Inr r"
  shows "well_shaped ''steps'' row"
proof -
  from assms obtain st1 n low where
    1: "required_loop row [''step_pk_id'', ''recipe_id'', ''step_number'', ''description'']
          (True, []) = Inr st1"
    and 2: "getitem row ''step_number'' = Inr n"
    and 3: "not_none_and_lt n 1 = Inr low"
    unfolding check_step_def bind_e_eq_Inr by blast
  from required_loop_Inr_cols[OF 1] getitem_Inr[OF 2] not_none_and_lt_Inr_numeric[OF 3]
  show ?thesis by (simp add: well_shaped_def)
qed

lemma rating_out_of_range_Inr_numeric: "rating_out_of_range r = Inr b \<Longrightarrow> numeric_cell r"
  by (cases r) (simp_all add: rating_out_of_range_def numeric_cell_def isna_def)

lemma rating_rule_Inr_shape:
  assumes "rating_rule fmt row t st = Inr st'"
  shows "map_of row ''rating'' \<noteq> None
       \<and> (t = CStr ''COOK_ATTEMPT'' \<longrightarrow> numeric_cell (cell_of row ''rating''))"
proof (cases "t = CStr ''COOK_ATTEMPT''")
  case True
  with assms obtain r bad where r: "getitem row ''rating'' = Inr r"
    and b: "rating_out_of_range r = Inr bad"
    by (auto simp: rating_rule_def bind_e_eq_Inr)
  from getitem_Inr_col[OF r] getitem_Inr[OF r] rating_out_of_range_Inr_numeric[OF b]
  show ?thesis by simp
next
  case False
  with assms obtain r where r: "getitem row ''rating'' = Inr r"
    by (auto simp: rating_rule_def bind_e_eq_Inr)
  from getitem_Inr_col[OF r] False show ?thesis by simp
qed

lemma check_interaction_Inr_shape:
  assumes "check_interaction fmt row = Inr r"
  shows "well_shaped ''interactions'' row"
proof -
  from assms obtain st1 t st3 where
    1: "required_loop row [''interaction_id'', ''user_id'', ''recipe_id'', ''interaction_type'',
          ''timestamp''] (True, []) = Inr st1"
    and 2: "getitem row ''interaction_type'' = Inr t"
    and 3: "rating_rule fmt row t
        (if t \<notin> VALID_INTERACTION_TYPES then fail st1 (''Invalid interaction type: '' @ fmt t)
         else st1) = Inr st3"
    unfolding check_interaction_def bind_e_eq_Inr by blast
  from required_loop_Inr_cols[OF 1] getitem_Inr[OF 2] rating_rule_Inr_shape[OF 3]
  show ?thesis by (simp add: well_shaped_def has_columns_def)
qed

lemma iterrows_Inr_rows:
  "iterrows check df acc = Inr rep \<Longrightarrow> \<forall>row \<in> set df. \<exists>r. check row = Inr r"
proof (induction df arbitrary: acc)
  case Nil
  then show ?case by simp
next
  case (Cons row df)
  from Cons.prems obtain r where c: "check row = Inr r"
    and it: "iterrows check df (case r of None \<Rightarrow> acc | Some e \<Rightarrow> acc @ [e]) = Inr rep"
    by (auto simp: bind_e_eq_Inr)
  from Cons.IH[OF it] c show ?case by auto
qed

lemma validate_data_Inr_shape:
  assumes "validate_data fmt file_key df = Inr result"
  shows "list_all (well_shaped file_key) df"
proof -
  from assms obtain rep where rep:
    "(if file_key = ''recipe'' then iterrows (check_recipe fmt) df []
        else if file_key = ''ingredients'' then iterrows (check_ingredient fmt) df []
        else if file_key = ''steps'' then iterrows (check_step fmt) df []
        else if file_key = ''interactions'' then iterrows (check_interaction fmt) df []
        else Inr []) = Inr rep"
    by (auto simp: validate_data_def bind_e_eq_Inr)
  consider "file_key = ''recipe''" | "file_key = ''ingredients''" | "file_key = ''steps''"
    | "file_key = ''interactions''"
    | "file_key \<notin> {''recipe'', ''ingredients'', ''steps'', ''interactions''}" by auto
  then show ?thesis
  proof cases
    case 1
    with rep iterrows_Inr_rows[of "check_recipe fmt" df "[]" rep] show ?thesis
      by (auto simp: list_all_iff dest: check_recipe_Inr_shape)
  next
    case 2
    with rep iterrows_Inr_rows[of "check_ingredient fmt" df "[]" rep] show ?thesis
      by (auto simp: list_all_iff dest: check_ingredient_Inr_shape)
  next
    case 3
    with rep iterrows_Inr_rows[of "check_step fmt" df "[]" rep] show ?thesis
      by (auto simp: list_all_iff dest: check_step_Inr_shape)
  next
    case 4
    with rep iterrows_Inr_rows[of "check_interaction fmt" df "[]" rep] show ?thesis
      by (auto simp: list_all_iff dest: check_interaction_Inr_shape)
  next
    case 5
    then show ?thesis by (simp add: well_shaped_def list_all_iff)
  qed
qed

text \<open>The two example frames, evaluated.\<close>

lemma example_recipe_frame_result:
  "validate_data fmt_example ''recipe'' example_recipe_frame
     = Inr (2, 0, 2,
         [\<lparr>entry_id = CStr ''r1'', status = ''INVALID'',
           reasons = [''Missing required field: name'',
                      ''Field serves must be positive, found: #'',
                      ''Invalid difficulty value: Intense'']\<rparr>,
          \<lparr>entry_id = CStr ''r2'', status = ''INVALID'',
           reasons = [''Missing required field: prep_time_minutes'']\<rparr>])"
  by (simp add: validator_eval example_recipe_frame_def fmt_example_def)

lemma example_interaction_frame_result:
  "validate_data fmt_example ''interactions'' example_interaction_frame
     = Inr (2, 1, 1,
         [\<lparr>entry_id = CStr ''i1'', status = ''INVALID'',
           reasons = [''Missing required field: timestamp'',
                      ''Cook attempt must have a rating between 1 and 5.'']\<rparr>])"
  by (simp add: validator_eval example_interaction_frame_def fmt_example_def)

text \<open>
  C9, as the code has it. On a record set that is well shaped for its file key (the columns
  the rules read are there and no cell that a rule compares with a number holds a string)
  validate\_data returns: the total is the number of input rows, the invalid count is the
  number of report entries, valid and invalid counts add up to the total, the valid count
  is not negative, and the report is the one the rule table prescribes, with one entry
  for each row that violates at least one rule, in the order of the rows, whose reasons
  are all the rules the row violates. On every other record set validate\_data raises and
  returns neither counts nor report.
\<close>

theorem validate_data_counts_and_report:
  "(list_all (well_shaped file_key) df \<longrightarrow>
      (\<exists>valid_count invalid_count.
          validate_data fmt file_key df
            = Inr (int (length df), valid_count, invalid_count, expected_report fmt file_key df)
        \<and> invalid_count = int (length (expected_report fmt file_key df))
        \<and> valid_count + invalid_count = int (length df) \<and> 0 \<le> valid_count))
   \<and> (\<not> list_all (well_shaped file_key) df \<longrightarrow>
        (\<exists>e. validate_data fmt file_key df = Inl e))"
proof (intro conjI impI)
  assume "list_all (well_shaped file_key) df"
  from validate_data_returns[OF this, of fmt] obtain t v i rep where
    r: "validate_data fmt file_key df = Inr (t, v, i, rep)"
    by (metis prod_cases4)
  from validate_data_Inr_counts[OF r] r
  show "\<exists>valid_count invalid_count.
          validate_data fmt file_key df
            = Inr (int (length df), valid_count, invalid_count, expected_report fmt file_key df)
        \<and> invalid_count = int (length (expected_report fmt file_key df))
        \<and> valid_count + invalid_count = int (length df) \<and> 0 \<le> valid_count"
    by auto
next
  assume n: "\<not> list_all (well_shaped file_key) df"
  show "\<exists>e. validate_data fmt file_key df = Inl e"
  proof (cases "validate_data fmt file_key df")
    case (Inl e)
    then show ?thesis by blast
  next
    case (Inr result)
    from validate_data_Inr_shape[OF this] n show ?thesis by contradiction
  qed
qed

theorem validate_data_counts_and_report_witness:
  "list_all (well_shaped ''recipe'') example_recipe_frame
   \<and> validate_data fmt_example ''recipe'' example_recipe_frame
       = Inr (2, 0, 2, expected_report fmt_example ''recipe'' example_recipe_frame)
   \<and> list_all (well_shaped ''interactions'') example_interaction_frame
   \<and> validate_data fmt_example ''interactions'' example_interaction_frame
       = Inr (2, 1, 1, expected_report fmt_example ''interactions'' example_interaction_frame)"
proof -
  have r: "list_all (well_shaped ''recipe'') example_recipe_frame"
    by (simp add: well_shaped_def has_columns_def cell_of_def numeric_cell_def
        example_recipe_frame_def)
  have i: "list_all (well_shaped ''interactions'') example_interaction_frame"
    by (simp add: well_shaped_def has_columns_def cell_of_def numeric_cell_def
        example_interaction_frame_def)
  from validate_data_counts_and_report[of "''recipe''" example_recipe_frame fmt_example] r
  obtain v n where "validate_data fmt_example ''recipe'' example_recipe_frame
      = Inr (int (length example_recipe_frame), v, n,
             expected_report fmt_example ''recipe'' example_recipe_frame)"
    by blast
  with example_recipe_frame_result
  have 1: "validate_data fmt_example ''recipe'' example_recipe_frame
       = Inr (2, 0, 2, expected_report fmt_example ''recipe'' example_recipe_frame)"
    by simp
  from validate_data_counts_and_report
    [of "''interactions''" example_interaction_frame fmt_example] i
  obtain v' n' where "validate_data fmt_example ''interactions'' example_interaction_frame
      = Inr (int (length example_interaction_frame), v', n',
             expected_report fmt_example ''interactions'' example_interaction_frame)"
    by blast
  with example_interaction_frame_result
  have 2: "validate_data fmt_example ''interactions'' example_interaction_frame
       = Inr (2, 1, 1, expected_report fmt_example ''interactions'' example_interaction_frame)"
    by simp
  from r 1 i 2 show ?thesis by (intro conjI)
qed

text \<open>
  Not every record set yields counts: a recipe row whose \<open>serves\<close> cell holds a string
  makes the comparison of line 43 raise TypeError.
\<close>

theorem validate_data_raises_counterexample:
  "validate_data fmt_example ''recipe''
     [[(''recipe_id'', CStr ''r1''), (''name'', CStr ''Rice''), (''serves'', CStr ''two''),
       (''prep_time_minutes'', CNum 10), (''cook_time_minutes'', CNum 20),
       (''difficulty'', CStr ''Easy'')]]
   = Inl TypeError"
  by (simp add: validator_eval numeric_loop.simps)

subsection \<open>The rating rule behind run\_validator\<close>

text \<open>
  C2. The row of the failing input is a VIEW interaction whose rating is absent (NaN in the
  frame read from the file). validate\_data on that frame finds nothing wrong with it, as
  the claim says. run\_validator first fills the absent rating with \<open>-1\<close> (the comment
  on line 182 says \<open>None\<close>), so the rule for the other interaction types sees a rating
  that is present and the row is reported invalid.
\<close>

theorem run_validator_flags_absent_rating: "run_validator_file fmt ''interactions''
      [[(''interaction_id'', CStr ''i1''), (''user_id'', CStr ''u1''), (''recipe_id'', CStr ''r1''),
        (''interaction_type'', CStr ''VIEW''), (''rating'', CNaN), (''timestamp'', CStr ''t1'')]]
     = Inr (1, 0, 1, [\<lparr>entry_id = CStr ''i1'', status = ''INVALID'',
          reasons = [''Interaction type '' @ fmt (CStr ''VIEW'') @ '' should not have a rating.'']\<rparr>])
   \<and> validate_data fmt ''interactions''
      [[(''interaction_id'', CStr ''i1''), (''user_id'', CStr ''u1''), (''recipe_id'', CStr ''r1''),
        (''interaction_type'', CStr ''VIEW''), (''rating'', CNaN), (''timestamp'', CStr ''t1'')]]
     = Inr (1, 1, 0, [])"
  by (simp add: validator_eval)

subsection \<open>Unknown file keys\<close>

text \<open>
  C10. For a file key other than the four record-set keys, validate\_data applies no rule:
  it returns the number of rows as total and as valid count, zero invalid rows and an empty
  report, and raises nothing.
\<close>

theorem validate_data_unknown_key:
  assumes "file_key \<notin> {''recipe'', ''ingredients'', ''steps'', ''interactions''}"
  shows "validate_data fmt file_key df = Inr (int (length df), int (length df), 0, [])"
  using assms by (simp add: validate_data_def Let_def)

theorem validate_data_unknown_key_witness:
  "''users'' \<notin> {''recipe'', ''ingredients'', ''steps'', ''interactions''}
   \<and> validate_data (\<lambda>c. '''') ''users'' [[(''user_id'', CStr ''u1'')], [(''user_id'', CNaN)]]
       = Inr (2, 2, 0, [])"
  using validate_data_unknown_key
    [of "''users''" "\<lambda>c. ''''" "[[(''user_id'', CStr ''u1'')], [(''user_id'', CNaN)]]"]
  by simp

section \<open>Properties of the normalizer\<close>

subsection \<open>What the loops append\<close>

lemma ingredient_record_Inr:
  assumes "ingredient_record uuid4 rid ing n = Inr r"
  shows "dict_get r ''recipe_id'' = rid \<and> dict_get r ''ingredient_pk_id'' = VStr (uuid4 n)"
  using assms by (auto simp: ingredient_record_def bind_e_eq_Inr dict_get_def)

lemma step_record_Inr:
  assumes "step_record uuid4 rid s n = Inr r"
  shows "dict_get r ''recipe_id'' = rid \<and> dict_get r ''step_pk_id'' = VStr (uuid4 n)"
  using assms by (auto simp: step_record_def bind_e_eq_Inr dict_get_def)

lemma ingredients_loop_Inr:
  "ingredients_loop uuid4 rid xs st = Inr st' \<Longrightarrow>
   \<exists>rows. st' = st\<lparr>normalized_ingredients := normalized_ingredients st @ rows,
                    uuid_calls := uuid_calls st + length xs\<rparr>
     \<and> length rows = length xs
     \<and> list_all (\<lambda>r. dict_get r ''recipe_id'' = rid) rows
     \<and> map (\<lambda>r. dict_get r ''ingredient_pk_id'') rows
         = map (\<lambda>k. VStr (uuid4 k)) [uuid_calls st ..< uuid_calls st + length xs]"
proof (induction xs arbitrary: st)
  case Nil
  then show ?case by simp
next
  case (Cons x xs)
  from Cons.prems obtain r where r: "ingredient_record uuid4 rid x (uuid_calls st) = Inr r"
    and l: "ingredients_loop uuid4 rid xs
         (st\<lparr>normalized_ingredients := normalized_ingredients st @ [r],
             uuid_calls := Suc (uuid_calls st)\<rparr>) = Inr st'"
    by (auto simp: bind_e_eq_Inr)
  from Cons.IH[OF l] obtain rows where rows:
    "st' = st\<lparr>normalized_ingredients := normalized_ingredients st @ [r] @ rows,
              uuid_calls := Suc (uuid_calls st) + length xs\<rparr>"
    "length rows = length xs"
    "list_all (\<lambda>r. dict_get r ''recipe_id'' = rid) rows"
    "map (\<lambda>r. dict_get r ''ingredient_pk_id'') rows
       = map (\<lambda>k. VStr (uuid4 k)) [Suc (uuid_calls st) ..< Suc (uuid_calls st) + length xs]"
    by auto
  have "[uuid_calls st ..< uuid_calls st + length (x # xs)]
      = uuid_calls st # [Suc (uuid_calls st) ..< Suc (uuid_calls st) + length xs]"
    by (subst upt_rec) simp
  with rows ingredient_record_Inr[OF r] show ?case
    by (intro exI[of _ "r # rows"]) simp
qed

lemma steps_loop_Inr:
  "steps_loop uuid4 rid xs st = Inr st' \<Longrightarrow>
   \<exists>rows. st' = st\<lparr>normalized_steps := normalized_steps st @ rows,
                    uuid_calls := uuid_calls st + length xs\<rparr>
     \<and> length rows = length xs
     \<and> list_all (\<lambda>r. dict_get r ''recipe_id'' = rid) rows
     \<and> map (\<lambda>r. dict_get r ''step_pk_id'') rows
         = map (\<lambda>k. VStr (uuid4 k)) [uuid_calls st ..< uuid_calls st + length xs]"
proof (induction xs arbitrary: st)
  case Nil
  then show ?case by simp
next
  case (Cons x xs)
  from Cons.prems obtain r where r: "step_record uuid4 rid x (uuid_calls st) = Inr r"
    and l: "steps_loop uuid4 rid xs
         (st\<lparr>normalized_steps := normalized_steps st @ [r],
             uuid_calls := Suc (uuid_calls st)\<rparr>) = Inr st'"
    by (auto simp: bind_e_eq_Inr)
  from Cons.IH[OF l] obtain rows where rows:
    "st' = st\<lparr>normalized_steps := normalized_steps st @ [r] @ rows,
              uuid_calls := Suc (uuid_calls st) + length xs\<rparr>"
    "length rows = length xs"
    "list_all (\<lambda>r. dict_get r ''recipe_id'' = rid) rows"
    "map (\<lambda>r. dict_get r ''step_pk_id'') rows
       = map (\<lambda>k. VStr (uuid4 k)) [Suc (uuid_calls st) ..< Suc (uuid_calls st) + length xs]"
    by auto
  have "[uuid_calls st ..< uuid_calls st + length (x # xs)]
      = uuid_calls st # [Suc (uuid_calls st) ..< Suc (uuid_calls st) + length xs]"
    by (subst upt_rec) simp
  with rows step_record_Inr[OF r] show ?case
    by (intro exI[of _ "r # rows"]) simp
qed

lemma normalize_recipe_skip:
  "\<not> truthy (dict_get d ''recipe_id'') \<Longrightarrow> normalize_recipe uuid4 d st = Inr st"
  by (simp add: normalize_recipe_def)

lemma normalize_recipe_Inr:
  assumes "normalize_recipe uuid4 d st = Inr st'"
  shows "\<exists>irows srows.
      normalized_ingredients st' = normalized_ingredients st @ irows
    \<and> normalized_steps st' = normalized_steps st @ srows
    \<and> rows_for_document d irows srows
    \<and> uuid_calls st' = uuid_calls st + length irows + length srows
    \<and> surrogate_keys irows srows
        = map (\<lambda>k. VStr (uuid4 k)) [uuid_calls st ..< uuid_calls st']"
proof (cases "truthy (dict_get d ''recipe_id'')")
  case False
  with assms have "st' = st" by (simp add: normalize_recipe_def)
  with False show ?thesis
    by (intro exI[of _ "[]"]) (simp add: rows_for_document_def surrogate_keys_def)
next
  case True
  let ?rid = "dict_get d ''recipe_id''"
  from assms True obtain r xs st1 ys where
    xs: "py_iter (dict_get_default d ''ingredients'' (VList [])) = Inr xs"
    and l1: "ingredients_loop uuid4 ?rid xs
        (st\<lparr>normalized_recipes := normalized_recipes st @ [r]\<rparr>) = Inr st1"
    and ys: "py_iter (dict_get_default d ''steps'' (VList [])) = Inr ys"
    and l2: "steps_loop uuid4 ?rid ys st1 = Inr st'"
    by (auto simp: normalize_recipe_def bind_e_eq_Inr Let_def)
  from ingredients_loop_Inr[OF l1] obtain irows where i:
    "st1 = st\<lparr>normalized_recipes := normalized_recipes st @ [r],
              normalized_ingredients := normalized_ingredients st @ irows,
              uuid_calls := uuid_calls st + length xs\<rparr>"
    "length irows = length xs"
    "list_all (\<lambda>r. dict_get r ''recipe_id'' = ?rid) irows"
    "map (\<lambda>r. dict_get r ''ingredient_pk_id'') irows
       = map (\<lambda>k. VStr (uuid4 k)) [uuid_calls st ..< uuid_calls st + length xs]"
    by auto
  from steps_loop_Inr[OF l2] obtain srows where s:
    "st' = st1\<lparr>normalized_steps := normalized_steps st1 @ srows,
              uuid_calls := uuid_calls st1 + length ys\<rparr>"
    "length srows = length ys"
    "list_all (\<lambda>r. dict_get r ''recipe_id'' = ?rid) srows"
    "map (\<lambda>r. dict_get r ''step_pk_id'') srows
       = map (\<lambda>k. VStr (uuid4 k)) [uuid_calls st1 ..< uuid_calls st1 + length ys]"
    by auto
  have upt: "[uuid_calls st ..< uuid_calls st + length xs + length ys]
     = [uuid_calls st ..< uuid_calls st + length xs]
       @ [uuid_calls st + length xs ..< uuid_calls st + length xs + length ys]"
    by (metis le_add1 upt_add_eq_append)
  have rows: "rows_for_document d irows srows"
    using True xs ys i(2,3) s(2,3) by (simp add: rows_for_document_def entries_def)
  have keys: "surrogate_keys irows srows
        = map (\<lambda>k. VStr (uuid4 k)) [uuid_calls st ..< uuid_calls st']"
    using i s by (simp add: surrogate_keys_def upt)
  from i s rows keys show ?thesis
    by (intro exI[of _ irows] exI[of _ srows]) simp
qed

lemma surrogate_keys_append:
  "set (surrogate_keys (a @ b) (c @ d)) = set (surrogate_keys a c) \<union> set (surrogate_keys b d)"
  "length (surrogate_keys (a @ b) (c @ d))
     = length (surrogate_keys a c) + length (surrogate_keys b d)"
  by (auto simp: surrogate_keys_def)

lemma normalize_recipe_calls: "normalize_recipe uuid4 d st = Inr st' \<Longrightarrow> uuid_calls st \<le> uuid_calls st'"
  using normalize_recipe_Inr by fastforce

lemma recipes_loop_Inr:
  "recipes_loop uuid4 docs st = Inr st' \<Longrightarrow>
   \<exists>parts.
      list_all2 (\<lambda>d p. rows_for_document d (fst p) (snd p)) docs parts
    \<and> normalized_ingredients st' = normalized_ingredients st @ concat (map fst parts)
    \<and> normalized_steps st' = normalized_steps st @ concat (map snd parts)
    \<and> uuid_calls st \<le> uuid_calls st'
    \<and> set (surrogate_keys (concat (map fst parts)) (concat (map snd parts)))
        = (\<lambda>k. VStr (uuid4 k)) ` {uuid_calls st ..< uuid_calls st'}
    \<and> length (surrogate_keys (concat (map fst parts)) (concat (map snd parts)))
        = uuid_calls st' - uuid_calls st"
proof (induction docs arbitrary: st)
  case Nil
  then show ?case by (simp add: surrogate_keys_def)
next
  case (Cons d docs)
  from Cons.prems obtain st1 where 1: "normalize_recipe uuid4 d st = Inr st1"
    and 2: "recipes_loop uuid4 docs st1 = Inr st'"
    by (auto simp: bind_e_eq_Inr)
  from normalize_recipe_Inr[OF 1] obtain irows srows where d:
    "normalized_ingredients st1 = normalized_ingredients st @ irows"
    "normalized_steps st1 = normalized_steps st @ srows"
    "rows_for_document d irows srows"
    "uuid_calls st1 = uuid_calls st + length irows + length srows"
    "surrogate_keys irows srows = map (\<lambda>k. VStr (uuid4 k)) [uuid_calls st ..< uuid_calls st1]"
    by blast
  from Cons.IH[OF 2] obtain parts where p:
    "list_all2 (\<lambda>d p. rows_for_document d (fst p) (snd p)) docs parts"
    "normalized_ingredients st' = normalized_ingredients st1 @ concat (map fst parts)"
    "normalized_steps st' = normalized_steps st1 @ concat (map snd parts)"
    "uuid_calls st1 \<le> uuid_calls st'"
    "set (surrogate_keys (concat (map fst parts)) (concat (map snd parts)))
        = (\<lambda>k. VStr (uuid4 k)) ` {uuid_calls st1 ..< uuid_calls st'}"
    "length (surrogate_keys (concat (map fst parts)) (concat (map snd parts)))
        = uuid_calls st' - uuid_calls st1"
    by blast
  from d(4) have le: "uuid_calls st \<le> uuid_calls st1" by simp
  have split: "{uuid_calls st ..< uuid_calls st'}
      = {uuid_calls st ..< uuid_calls st1} \<union> {uuid_calls st1 ..< uuid_calls st'}"
    using le p(4) by auto
  have s: "set (surrogate_keys (irows @ concat (map fst parts)) (srows @ concat (map snd parts)))
      = (\<lambda>k. VStr (uuid4 k)) ` {uuid_calls st ..< uuid_calls st'}"
    unfolding surrogate_keys_append(1) p(5) d(5) split by (simp add: image_Un)
  have l: "length (surrogate_keys (irows @ concat (map fst parts)) (srows @ concat (map snd parts)))
      = uuid_calls st' - uuid_calls st"
    unfolding surrogate_keys_append(2) p(6) d(5) using le p(4) by simp
  from d p le s l show ?case
    by (intro exI[of _ "(irows, srows) # parts"]) simp
qed

lemma distinct_surrogate_keys:
  assumes "inj uuid4"
    and "set ks = (\<lambda>k. VStr (uuid4 k)) ` {0 ..< n}" and "length ks = n"
  shows "distinct ks"
proof -
  have "inj (\<lambda>k. VStr (uuid4 k))"
    using assms(1) by (auto simp: inj_def)
  then have "card ((\<lambda>k. VStr (uuid4 k)) ` {0 ..< n}) = n"
    by (simp add: card_image inj_on_def inj_def)
  with assms(2,3) show ?thesis
    by (simp add: card_distinct)
qed

text \<open>Evaluation of the normalizer on concrete documents.\<close>

lemmas normalizer_eval =
  transform_and_normalize_def normalize_recipe_def recipe_record_def ingredient_record_def
  step_record_def convert_timestamp_def dict_get_def dict_get_default_def uuid_example_def
  frames_of_def Let_def

lemma inj_uuid_example: "inj uuid_example"
proof (rule injI)
  fix m n assume "uuid_example m = uuid_example n"
  then have "length (uuid_example m) = length (uuid_example n)" by simp
  then show "m = n" by (simp add: uuid_example_def)
qed

text \<open>
  C3. When transform\_and\_normalize returns, the Ingredient and Step frames are the
  concatenation, in document order, of one group of rows per recipe document. The group of
  a retained document (truthy recipe\_id) has exactly as many Ingredient rows as the
  document's embedded ingredients list has entries and as many Step rows as its steps
  list has entries, each row carrying the document's recipe\_id; the group of a skipped
  document is empty. With a key generator that never repeats a key, the surrogate keys of
  all Ingredient and Step rows of the run are pairwise distinct.
\<close>

theorem normalize_emits_rows_per_document:
  assumes "inj uuid4"
    and "transform_and_normalize uuid4 recipes_data interactions_data = Inr res"
  shows "\<exists>parts.
      list_all2 (\<lambda>d p. rows_for_document d (fst p) (snd p)) recipes_data parts
    \<and> ingredients_df res = concat (map fst parts)
    \<and> steps_df res = concat (map snd parts)
    \<and> distinct (surrogate_keys (ingredients_df res) (steps_df res))"
proof -
  from assms(2) obtain st where st: "recipes_loop uuid4 recipes_data
        \<lparr>normalized_recipes = [], normalized_ingredients = [], normalized_steps = [],
         uuid_calls = 0\<rparr> = Inr st"
    and i: "ingredients_df res = normalized_ingredients st"
    and s: "steps_df res = normalized_steps st"
    by (auto simp: transform_and_normalize_def bind_e_eq_Inr)
  from recipes_loop_Inr[OF st] obtain parts where p:
    "list_all2 (\<lambda>d p. rows_for_document d (fst p) (snd p)) recipes_data parts"
    "normalized_ingredients st = concat (map fst parts)"
    "normalized_steps st = concat (map snd parts)"
    "set (surrogate_keys (concat (map fst parts)) (concat (map snd parts)))
        = (\<lambda>k. VStr (uuid4 k)) ` {0 ..< uuid_calls st}"
    "length (surrogate_keys (concat (map fst parts)) (concat (map snd parts))) = uuid_calls st"
    by auto
  from distinct_surrogate_keys[OF assms(1) p(4) p(5)] p(1,2,3) i s show ?thesis
    by (intro exI[of _ parts]) simp
qed

theorem normalize_emits_rows_per_document_witness:
  "inj uuid_example
   \<and> transform_and_normalize uuid_example
        [[(''recipe_id'', VStr ''r1''),
          (''ingredients'', VList [VDict [(''name'', VStr ''rice'')], VDict []]),
          (''steps'', VList [VDict [(''step_number'', VInt 1)]])]] []
      = Inr \<lparr>recipe_df = [[(''recipe_id'', VStr ''r1''), (''name'', VNone), (''serves'', VNone),
                (''prep_time_minutes'', VNone), (''cook_time_minutes'', VNone),
                (''difficulty'', VNone), (''created_at'', VNone)]],
             ingredients_df =
               [[(''ingredient_pk_id'', VStr ''k''), (''recipe_id'', VStr ''r1''),
                 (''name'', VStr ''rice''), (''quantity'', VNone), (''unit'', VNone)],
                [(''ingredient_pk_id'', VStr ''kk''), (''recipe_id'', VStr ''r1''),
                 (''name'', VNone), (''quantity'', VNone), (''unit'', VNone)]],
             steps_df =
               [[(''step_pk_id'', VStr ''kkk''), (''recipe_id'', VStr ''r1''),
                 (''step_number'', VInt 1), (''description'', VNone)]],
             interactions_df = [],
             recipes_data_after =
               [[(''recipe_id'', VStr ''r1''),
                 (''ingredients'', VList [VDict [(''name'', VStr ''rice'')], VDict []]),
                 (''steps'', VList [VDict [(''step_number'', VInt 1)]])]],
             interactions_data_after = []\<rparr>
   \<and> distinct (surrogate_keys
               [[(''ingredient_pk_id'', VStr ''k''), (''recipe_id'', VStr ''r1''),
                 (''name'', VStr ''rice''), (''quantity'', VNone), (''unit'', VNone)],
                [(''ingredient_pk_id'', VStr ''kk''), (''recipe_id'', VStr ''r1''),
                 (''name'', VNone), (''quantity'', VNone), (''unit'', VNone)]]
               [[(''step_pk_id'', VStr ''kkk''), (''recipe_id'', VStr ''r1''),
                 (''step_number'', VInt 1), (''description'', VNone)]])"
proof -
  have e: "transform_and_normalize uuid_example
        [[(''recipe_id'', VStr ''r1''),
          (''ingredients'', VList [VDict [(''name'', VStr ''rice'')], VDict []]),
          (''steps'', VList [VDict [(''step_number'', VInt 1)]])]] []
      = Inr \<lparr>recipe_df = [[(''recipe_id'', VStr ''r1''), (''name'', VNone), (''serves'', VNone),
                (''prep_time_minutes'', VNone), (''cook_time_minutes'', VNone),
                (''difficulty'', VNone), (''created_at'', VNone)]],
             ingredients_df =
               [[(''ingredient_pk_id'', VStr ''k''), (''recipe_id'', VStr ''r1''),
                 (''name'', VStr ''rice''), (''quantity'', VNone), (''unit'', VNone)],
                [(''ingredient_pk_id'', VStr ''kk''), (''recipe_id'', VStr ''r1''),
                 (''name'', VNone), (''quantity'', VNone), (''unit'', VNone)]],
             steps_df =
               [[(''step_pk_id'', VStr ''kkk''), (''recipe_id'', VStr ''r1''),
                 (''step_number'', VInt 1), (''description'', VNone)]],
             interactions_df = [],
             recipes_data_after =
               [[(''recipe_id'', VStr ''r1''),
                 (''ingredients'', VList [VDict [(''name'', VStr ''rice'')], VDict []]),
                 (''steps'', VList [VDict [(''step_number'', VInt 1)]])]],
             interactions_data_after = []\<rparr>"
    by (simp add: normalizer_eval)
  from normalize_emits_rows_per_document[OF inj_uuid_example e]
  have "distinct (surrogate_keys
               [[(''ingredient_pk_id'', VStr ''k''), (''recipe_id'', VStr ''r1''),
                 (''name'', VStr ''rice''), (''quantity'', VNone), (''unit'', VNone)],
                [(''ingredient_pk_id'', VStr ''kk''), (''recipe_id'', VStr ''r1''),
                 (''name'', VNone), (''quantity'', VNone), (''unit'', VNone)]]
               [[(''step_pk_id'', VStr ''kkk''), (''recipe_id'', VStr ''r1''),
                 (''step_number'', VInt 1), (''description'', VNone)]])"
    by auto
  with inj_uuid_example e show ?thesis by (intro conjI)
qed

subsection \<open>Skipped documents\<close>

lemma recipes_loop_append:
  "recipes_loop uuid4 (xs @ ys) st = bind_e (recipes_loop uuid4 xs st) (recipes_loop uuid4 ys)"
proof (induction xs arbitrary: st)
  case Nil
  then show ?case by simp
next
  case (Cons x xs)
  then show ?case by (cases "normalize_recipe uuid4 x st") simp_all
qed

text \<open>
  C4. A recipe document whose recipe\_id is missing or empty (or otherwise falsy) is
  skipped: the four frames, or the exception raised on account of another document, are
  the same as for the input without that document. It contributes no Recipe, Ingredient
  or Step row and consumes no key, it raises nothing itself, and the documents before and
  after it are processed as they would be without it.
\<close>

theorem skipped_document_contributes_nothing:
  assumes "\<not> truthy (dict_get recipe_doc ''recipe_id'')"
  shows "frames_of (transform_and_normalize uuid4 (before @ recipe_doc # after) interactions_data)
       = frames_of (transform_and_normalize uuid4 (before @ after) interactions_data)"
proof -
  have skip: "recipes_loop uuid4 (recipe_doc # after) = recipes_loop uuid4 after"
    by (rule ext) (simp add: normalize_recipe_skip[OF assms])
  have "recipes_loop uuid4 (before @ recipe_doc # after) st
      = recipes_loop uuid4 (before @ after) st" for st
    by (simp only: recipes_loop_append skip)
  then show ?thesis
    by (simp add: transform_and_normalize_def frames_of_def bind_e_def
        split: sum.splits)
qed

theorem skipped_document_contributes_nothing_witness:
  "\<not> truthy (dict_get [(''recipe_id'', VStr ''''), (''name'', VStr ''nameless''),
        (''ingredients'', VList [VDict [(''name'', VStr ''salt'')]])] ''recipe_id'')
   \<and> frames_of (transform_and_normalize uuid_example
        ([[(''recipe_id'', VStr ''r1'')]]
         @ [(''recipe_id'', VStr ''''), (''name'', VStr ''nameless''),
            (''ingredients'', VList [VDict [(''name'', VStr ''salt'')]])]
         # [[(''recipe_id'', VStr ''r2''), (''steps'', VList [VDict []])]]) [])
     = frames_of (transform_and_normalize uuid_example
        ([[(''recipe_id'', VStr ''r1'')]]
         @ [[(''recipe_id'', VStr ''r2''), (''steps'', VList [VDict []])]]) [])"
proof -
  have h: "\<not> truthy (dict_get [(''recipe_id'', VStr ''''), (''name'', VStr ''nameless''),
        (''ingredients'', VList [VDict [(''name'', VStr ''salt'')]])] ''recipe_id'')"
    by (simp add: dict_get_def)
  from h skipped_document_contributes_nothing[OF h] show ?thesis by (rule conjI)
qed

subsection \<open>The conversion of one interaction document\<close>

lemma convert_timestamp_Inr:
  "convert_timestamp d = Inr d' \<Longrightarrow> converted_in_place d d'"
  by (cases "dict_get d ''timestamp''")
     (auto simp: convert_timestamp_def converted_in_place_def bind_e_eq_Inr split: if_splits)

lemma interactions_loop_Inr:
  "interactions_loop xs = Inr ys \<Longrightarrow> list_all2 converted_in_place xs ys"
proof (induction xs arbitrary: ys)
  case Nil
  then show ?case by simp
next
  case (Cons x xs)
  from Cons.prems obtain x' ys' where "convert_timestamp x = Inr x'"
    "interactions_loop xs = Inr ys'" "ys = x' # ys'"
    by (auto simp: bind_e_eq_Inr)
  with Cons.IH show ?case by (simp add: convert_timestamp_Inr)
qed

lemma converted_in_place_fields:
  assumes "converted_in_place d d'" and "dict_get d ''timestamp'' = VTime t"
  shows "map fst d' = map fst d" and "dict_get d' ''timestamp'' = VStr t"
    and "k \<noteq> ''timestamp'' \<Longrightarrow> dict_get d' k = dict_get d k"
proof -
  from assms have d': "d' = AList.update ''timestamp'' (VStr t) d"
    by (simp add: converted_in_place_def)
  from assms(2) have "''timestamp'' \<in> fst ` set d"
    by (auto simp: dict_get_def split: option.splits dest: map_of_SomeD intro: rev_image_eqI)
  then show "map fst d' = map fst d"
    unfolding d' by (simp add: update_keys)
  show "dict_get d' ''timestamp'' = VStr t"
    unfolding d' by (simp add: dict_get_def update_conv')
  show "k \<noteq> ''timestamp'' \<Longrightarrow> dict_get d' k = dict_get d k"
    unfolding d' by (simp add: dict_get_def update_conv')
qed

subsection \<open>Normalization of well-formed documents returns\<close>

lemma ingredients_loop_returns:
  "list_all is_dict xs \<Longrightarrow> \<exists>st'. ingredients_loop uuid4 rid xs st = Inr st'"
proof (induction xs arbitrary: st)
  case Nil
  then show ?case by simp
next
  case (Cons x xs)
  then obtain d where "x = VDict d" by (cases x) (simp_all add: is_dict_def)
  with Cons show ?case by (simp add: ingredient_record_def)
qed

lemma steps_loop_returns:
  "list_all is_dict xs \<Longrightarrow> \<exists>st'. steps_loop uuid4 rid xs st = Inr st'"
proof (induction xs arbitrary: st)
  case Nil
  then show ?case by simp
next
  case (Cons x xs)
  then obtain d where "x = VDict d" by (cases x) (simp_all add: is_dict_def)
  with Cons show ?case by (simp add: step_record_def)
qed

lemma timestamp_or_falsy_isoformat:
  "timestamp_or_falsy v \<Longrightarrow> \<exists>s. (if truthy v then isoformat v else Inr VNone) = Inr s"
  by (cases v) (simp_all add: timestamp_or_falsy_def)

lemma list_of_dicts_iter:
  "list_of_dicts v \<Longrightarrow> \<exists>xs. py_iter v = Inr xs \<and> list_all is_dict xs"
  by (cases v) (simp_all add: list_of_dicts_def)

lemma normalize_recipe_returns:
  assumes "well_formed_recipe d"
  shows "\<exists>st'. normalize_recipe uuid4 d st = Inr st'"
proof (cases "truthy (dict_get d ''recipe_id'')")
  case False
  then show ?thesis by (simp add: normalize_recipe_def)
next
  case True
  from assms timestamp_or_falsy_isoformat obtain c where
    c: "(if truthy (dict_get d ''created_at'') then isoformat (dict_get d ''created_at'')
         else Inr VNone) = Inr c"
    unfolding well_formed_recipe_def by blast
  from assms list_of_dicts_iter obtain xs where
    xs: "py_iter (dict_get_default d ''ingredients'' (VList [])) = Inr xs" "list_all is_dict xs"
    unfolding well_formed_recipe_def by blast
  from assms list_of_dicts_iter obtain ys where
    ys: "py_iter (dict_get_default d ''steps'' (VList [])) = Inr ys" "list_all is_dict ys"
    unfolding well_formed_recipe_def by blast
  obtain r where r: "recipe_record d (dict_get d ''recipe_id'') = Inr r"
    by (simp add: recipe_record_def c)
  from ingredients_loop_returns[OF xs(2)] obtain st1 where 1:
    "ingredients_loop uuid4 (dict_get d ''recipe_id'') xs
       (st\<lparr>normalized_recipes := normalized_recipes st @ [r]\<rparr>) = Inr st1" by blast
  from steps_loop_returns[OF ys(2)] obtain st2 where 2:
    "steps_loop uuid4 (dict_get d ''recipe_id'') ys st1 = Inr st2" by blast
  from True r xs(1) ys(1) 1 2 show ?thesis
    by (simp add: normalize_recipe_def)
qed

lemma recipes_loop_returns:
  "list_all well_formed_recipe docs \<Longrightarrow> \<exists>st'. recipes_loop uuid4 docs st = Inr st'"
proof (induction docs arbitrary: st)
  case Nil
  then show ?case by simp
next
  case (Cons d docs)
  then obtain st1 where "normalize_recipe uuid4 d st = Inr st1"
    using normalize_recipe_returns by fastforce
  with Cons show ?case by simp
qed

lemma interactions_loop_returns:
  "list_all well_formed_interaction xs \<Longrightarrow> \<exists>ys. interactions_loop xs = Inr ys"
proof (induction xs)
  case Nil
  then show ?case by simp
next
  case (Cons x xs)
  then obtain ys where ys: "interactions_loop xs = Inr ys" by auto
  from Cons.prems have "timestamp_or_falsy (dict_get x ''timestamp'')"
    by (simp add: well_formed_interaction_def)
  then obtain x' where "convert_timestamp x = Inr x'"
    by (cases "dict_get x ''timestamp''") (simp_all add: timestamp_or_falsy_def convert_timestamp_def)
  with ys show ?case by simp
qed

lemma transform_and_normalize_returns:
  assumes "list_all well_formed_recipe recipes_data"
    and "list_all well_formed_interaction interactions_data"
  shows "\<exists>res. transform_and_normalize uuid4 recipes_data interactions_data = Inr res"
proof -
  from recipes_loop_returns[OF assms(1)] obtain st where "recipes_loop uuid4 recipes_data
        \<lparr>normalized_recipes = [], normalized_ingredients = [], normalized_steps = [],
         uuid_calls = 0\<rparr> = Inr st" by blast
  moreover from interactions_loop_returns[OF assms(2)] obtain ys where
    "interactions_loop interactions_data = Inr ys" by blast
  ultimately show ?thesis by (simp add: transform_and_normalize_def)
qed

subsection \<open>The effect on the caller's documents\<close>

lemma allocated_ingredient:
  assumes "allocated n h s"
  shows "allocated n h (s\<lparr>heap := (heap s)(next_addr s := r),
            next_addr := Suc (next_addr s),
            normalized_ingredients_refs := normalized_ingredients_refs s @ [next_addr s],
            uuid_calls_refs := c\<rparr>)"
  using assms by (auto simp: allocated_def new_records_def)

lemma allocated_step:
  assumes "allocated n h s"
  shows "allocated n h (s\<lparr>heap := (heap s)(next_addr s := r),
            next_addr := Suc (next_addr s),
            normalized_steps_refs := normalized_steps_refs s @ [next_addr s],
            uuid_calls_refs := c\<rparr>)"
  using assms by (auto simp: allocated_def new_records_def)

lemma allocated_recipe:
  assumes "allocated n h s"
  shows "allocated n h (s\<lparr>heap := (heap s)(next_addr s := r),
            next_addr := Suc (next_addr s),
            normalized_recipes_refs := normalized_recipes_refs s @ [next_addr s]\<rparr>)"
  using assms by (auto simp: allocated_def new_records_def)

lemma ingredients_loop_refs_allocated:
  "ingredients_loop_refs uuid4 rid xs s = Inr s' \<Longrightarrow> allocated n h s \<Longrightarrow> allocated n h s'"
proof (induction xs arbitrary: s)
  case Nil
  then show ?case by simp
next
  case (Cons x xs)
  from Cons.prems(1) obtain r where
    "ingredients_loop_refs uuid4 rid xs
         (s\<lparr>heap := (heap s)(next_addr s := r),
            next_addr := Suc (next_addr s),
            normalized_ingredients_refs := normalized_ingredients_refs s @ [next_addr s],
            uuid_calls_refs := Suc (uuid_calls_refs s)\<rparr>) = Inr s'"
    by (auto simp: bind_e_eq_Inr)
  from Cons.IH[OF this allocated_ingredient[OF Cons.prems(2)]] show ?case .
qed

lemma steps_loop_refs_allocated:
  "steps_loop_refs uuid4 rid xs s = Inr s' \<Longrightarrow> allocated n h s \<Longrightarrow> allocated n h s'"
proof (induction xs arbitrary: s)
  case Nil
  then show ?case by simp
next
  case (Cons x xs)
  from Cons.prems(1) obtain r where
    "steps_loop_refs uuid4 rid xs
         (s\<lparr>heap := (heap s)(next_addr s := r),
            next_addr := Suc (next_addr s),
            normalized_steps_refs := normalized_steps_refs s @ [next_addr s],
            uuid_calls_refs := Suc (uuid_calls_refs s)\<rparr>) = Inr s'"
    by (auto simp: bind_e_eq_Inr)
  from Cons.IH[OF this allocated_step[OF Cons.prems(2)]] show ?case .
qed

lemma normalize_recipe_refs_allocated:
  assumes "normalize_recipe_refs uuid4 a s = Inr s'" and "allocated n h s"
  shows "allocated n h s'"
proof (cases "truthy (dict_get (heap s a) ''recipe_id'')")
  case False
  with assms show ?thesis by (simp add: normalize_recipe_refs_def)
next
  case True
  with assms(1) obtain r xs s1 ys where
    i: "ingredients_loop_refs uuid4 (dict_get (heap s a) ''recipe_id'') xs
          (s\<lparr>heap := (heap s)(next_addr s := r),
             next_addr := Suc (next_addr s),
             normalized_recipes_refs := normalized_recipes_refs s @ [next_addr s]\<rparr>) = Inr s1"
    and st: "steps_loop_refs uuid4 (dict_get (heap s a) ''recipe_id'') ys s1 = Inr s'"
    by (auto simp: normalize_recipe_refs_def Let_def bind_e_eq_Inr)
  from steps_loop_refs_allocated[OF st
        ingredients_loop_refs_allocated[OF i allocated_recipe[OF assms(2)]]]
  show ?thesis .
qed

lemma recipes_loop_refs_allocated:
  "recipes_loop_refs uuid4 as s = Inr s' \<Longrightarrow> allocated n h s \<Longrightarrow> allocated n h s'"
proof (induction as arbitrary: s)
  case Nil
  then show ?case by simp
next
  case (Cons a as)
  from Cons.prems(1) obtain s1 where a: "normalize_recipe_refs uuid4 a s = Inr s1"
    and r: "recipes_loop_refs uuid4 as s1 = Inr s'"
    by (auto simp: bind_e_eq_Inr)
  from Cons.IH[OF r normalize_recipe_refs_allocated[OF a Cons.prems(2)]] show ?case .
qed

lemma converted_in_place_twice:
  assumes "converted_in_place d d'" and "converted_in_place d' d''"
  shows "converted_in_place d d''"
proof (cases "truthy (dict_get d ''timestamp'')")
  case False
  with assms show ?thesis by (simp add: converted_in_place_def)
next
  case True
  with assms(1) obtain t where t: "dict_get d ''timestamp'' = VTime t"
    and d': "d' = AList.update ''timestamp'' (VStr t) d"
    by (auto simp: converted_in_place_def split: pyval.splits)
  have ts: "dict_get d' ''timestamp'' = VStr t"
    unfolding d' by (simp add: dict_get_def update_conv')
  show ?thesis
  proof (cases "t = []")
    case True
    with ts assms(2) have "d'' = d'" by (simp add: converted_in_place_def)
    with assms(1) show ?thesis by simp
  next
    case False
    with ts assms(2) show ?thesis by (simp add: converted_in_place_def)
  qed
qed

lemma interactions_loop_refs_Inr:
  "interactions_loop_refs as s = Inr s' \<Longrightarrow>
     (\<forall>a. a \<notin> set as \<longrightarrow> heap s' a = heap s a)
   \<and> (\<forall>a \<in> set as. converted_in_place (heap s a) (heap s' a))
   \<and> next_addr s' = next_addr s
   \<and> normalized_recipes_refs s' = normalized_recipes_refs s
   \<and> normalized_ingredients_refs s' = normalized_ingredients_refs s
   \<and> normalized_steps_refs s' = normalized_steps_refs s"
proof (induction as arbitrary: s)
  case Nil
  then show ?case by simp
next
  case (Cons a as)
  from Cons.prems obtain d where d: "convert_timestamp (heap s a) = Inr d"
    and r: "interactions_loop_refs as (s\<lparr>heap := (heap s)(a := d)\<rparr>) = Inr s'"
    by (auto simp: bind_e_eq_Inr)
  note c = convert_timestamp_Inr[OF d]
  from Cons.IH[OF r] have
    out: "\<And>b. b \<notin> set as \<Longrightarrow> heap s' b = ((heap s)(a := d)) b"
    and inn: "\<And>b. b \<in> set as \<Longrightarrow> converted_in_place (((heap s)(a := d)) b) (heap s' b)"
    and rest: "next_addr s' = next_addr s"
      "normalized_recipes_refs s' = normalized_recipes_refs s"
      "normalized_ingredients_refs s' = normalized_ingredients_refs s"
      "normalized_steps_refs s' = normalized_steps_refs s"
    by simp_all
  have "heap s' b = heap s b" if "b \<notin> set (a # as)" for b
    using out[of b] that by simp
  moreover have "converted_in_place (heap s b) (heap s' b)" if "b \<in> set (a # as)" for b
  proof (cases "b = a")
    case True
    show ?thesis
    proof (cases "a \<in> set as")
      case True
      from inn[OF this] have "converted_in_place d (heap s' a)" by simp
      from converted_in_place_twice[OF c this] \<open>b = a\<close> show ?thesis by simp
    next
      case False
      from out[OF this] have "heap s' a = d" by simp
      with c \<open>b = a\<close> show ?thesis by simp
    qed
  next
    case False
    with that have "b \<in> set as" by simp
    from inn[OF this] False show ?thesis by simp
  qed
  ultimately show ?case using rest by blast
qed


lemma allocated_initial:
  "allocated n h \<lparr>heap = h, next_addr = n, normalized_recipes_refs = [],
         normalized_ingredients_refs = [], normalized_steps_refs = [],
         uuid_calls_refs = 0\<rparr>"
  by (simp add: allocated_def new_records_def)

text \<open>
  The run on the store computes the frames the run on the values computes, and raises
  what it raises, as long as no interaction document is passed twice.
\<close>

lemma bind_e_rel:
  assumes "rel_sum (=) R m m'"
    and "\<And>x y. m = Inr x \<Longrightarrow> m' = Inr y \<Longrightarrow> R x y \<Longrightarrow> rel_sum (=) Q (f x) (g y)"
  shows "rel_sum (=) Q (bind_e m f) (bind_e m' g)"
  using assms by (cases m; cases m') simp_all

lemma allocated_fresh:
  assumes "allocated n h s"
  shows "next_addr s \<notin> set (normalized_recipes_refs s)"
    and "next_addr s \<notin> set (normalized_ingredients_refs s)"
    and "next_addr s \<notin> set (normalized_steps_refs s)"
proof -
  from assms have "next_addr s \<notin> set (new_records s)" by (simp add: allocated_def)
  then show "next_addr s \<notin> set (normalized_recipes_refs s)"
    and "next_addr s \<notin> set (normalized_ingredients_refs s)"
    and "next_addr s \<notin> set (normalized_steps_refs s)"
    by (simp_all add: new_records_def)
qed

lemma same_rows_ingredient:
  assumes "allocated n h s" and "same_rows s st"
  shows "same_rows (s\<lparr>heap := (heap s)(next_addr s := r),
            next_addr := Suc (next_addr s),
            normalized_ingredients_refs := normalized_ingredients_refs s @ [next_addr s],
            uuid_calls_refs := Suc (uuid_calls_refs s)\<rparr>)
          (st\<lparr>normalized_ingredients := normalized_ingredients st @ [r],
              uuid_calls := Suc (uuid_calls st)\<rparr>)"
  using assms(2) allocated_fresh[OF assms(1)] by (simp add: same_rows_def)

lemma same_rows_step:
  assumes "allocated n h s" and "same_rows s st"
  shows "same_rows (s\<lparr>heap := (heap s)(next_addr s := r),
            next_addr := Suc (next_addr s),
            normalized_steps_refs := normalized_steps_refs s @ [next_addr s],
            uuid_calls_refs := Suc (uuid_calls_refs s)\<rparr>)
          (st\<lparr>normalized_steps := normalized_steps st @ [r],
              uuid_calls := Suc (uuid_calls st)\<rparr>)"
  using assms(2) allocated_fresh[OF assms(1)] by (simp add: same_rows_def)

lemma same_rows_recipe:
  assumes "allocated n h s" and "same_rows s st"
  shows "same_rows (s\<lparr>heap := (heap s)(next_addr s := r),
            next_addr := Suc (next_addr s),
            normalized_recipes_refs := normalized_recipes_refs s @ [next_addr s]\<rparr>)
          (st\<lparr>normalized_recipes := normalized_recipes st @ [r]\<rparr>)"
  using assms(2) allocated_fresh[OF assms(1)] by (simp add: same_rows_def)

lemma ingredients_loop_refs_rows:
  "allocated n h s \<Longrightarrow> same_rows s st \<Longrightarrow>
   rel_sum (=) same_rows (ingredients_loop_refs uuid4 rid xs s) (ingredients_loop uuid4 rid xs st)"
proof (induction xs arbitrary: s st)
  case Nil
  then show ?case by simp
next
  case (Cons x xs)
  from Cons.prems(2) have c: "uuid_calls_refs s = uuid_calls st" by (simp add: same_rows_def)
  show ?case
  proof (cases "ingredient_record uuid4 rid x (uuid_calls st)")
    case (Inl e)
    with c show ?thesis by simp
  next
    case (Inr r)
    from Cons.IH[OF allocated_ingredient[OF Cons.prems(1)]
        same_rows_ingredient[OF Cons.prems(1) Cons.prems(2)]] Inr c
    show ?thesis by simp
  qed
qed

lemma steps_loop_refs_rows:
  "allocated n h s \<Longrightarrow> same_rows s st \<Longrightarrow>
   rel_sum (=) same_rows (steps_loop_refs uuid4 rid xs s) (steps_loop uuid4 rid xs st)"
proof (induction xs arbitrary: s st)
  case Nil
  then show ?case by simp
next
  case (Cons x xs)
  from Cons.prems(2) have c: "uuid_calls_refs s = uuid_calls st" by (simp add: same_rows_def)
  show ?case
  proof (cases "step_record uuid4 rid x (uuid_calls st)")
    case (Inl e)
    with c show ?thesis by simp
  next
    case (Inr r)
    from Cons.IH[OF allocated_step[OF Cons.prems(1)]
        same_rows_step[OF Cons.prems(1) Cons.prems(2)]] Inr c
    show ?thesis by simp
  qed
qed

lemma normalize_recipe_refs_rows:
  assumes al: "allocated n h s" and sr: "same_rows s st" and a: "a < n"
  shows "rel_sum (=) same_rows (normalize_recipe_refs uuid4 a s) (normalize_recipe uuid4 (h a) st)"
proof -
  from al a have ha: "heap s a = h a" by (simp add: allocated_def)
  show ?thesis
  proof (cases "truthy (dict_get (h a) ''recipe_id'')")
    case False
    with ha sr show ?thesis by (simp add: normalize_recipe_refs_def normalize_recipe_def)
  next
    case True
    let ?rid = "dict_get (h a) ''recipe_id''"
    have "rel_sum (=) same_rows
       (bind_e (recipe_record (h a) ?rid) (\<lambda>r.
        bind_e (py_iter (dict_get_default (h a) ''ingredients'' (VList []))) (\<lambda>ingredients.
        bind_e (ingredients_loop_refs uuid4 ?rid ingredients
                     (s\<lparr>heap := (heap s)(next_addr s := r),
                        next_addr := Suc (next_addr s),
                        normalized_recipes_refs := normalized_recipes_refs s @ [next_addr s]\<rparr>)) (\<lambda>s1.
        bind_e (py_iter (dict_get_default (heap s1 a) ''steps'' (VList []))) (\<lambda>steps.
             steps_loop_refs uuid4 ?rid steps s1)))))
       (bind_e (recipe_record (h a) ?rid) (\<lambda>r.
        bind_e (py_iter (dict_get_default (h a) ''ingredients'' (VList []))) (\<lambda>ingredients.
        bind_e (ingredients_loop uuid4 ?rid ingredients
                     (st\<lparr>normalized_recipes := normalized_recipes st @ [r]\<rparr>)) (\<lambda>st1.
        bind_e (py_iter (dict_get_default (h a) ''steps'' (VList []))) (\<lambda>steps.
             steps_loop uuid4 ?rid steps st1)))))"
    proof (rule bind_e_rel[where R = "(=)"])
      show "rel_sum (=) (=) (recipe_record (h a) ?rid) (recipe_record (h a) ?rid)"
        by (simp add: sum.rel_eq)
    next
      fix r r' :: pydict assume "r = r'"
      show "rel_sum (=) same_rows
        (bind_e (py_iter (dict_get_default (h a) ''ingredients'' (VList []))) (\<lambda>ingredients.
        bind_e (ingredients_loop_refs uuid4 ?rid ingredients
                     (s\<lparr>heap := (heap s)(next_addr s := r),
                        next_addr := Suc (next_addr s),
                        normalized_recipes_refs := normalized_recipes_refs s @ [next_addr s]\<rparr>)) (\<lambda>s1.
        bind_e (py_iter (dict_get_default (heap s1 a) ''steps'' (VList []))) (\<lambda>steps.
             steps_loop_refs uuid4 ?rid steps s1))))
        (bind_e (py_iter (dict_get_default (h a) ''ingredients'' (VList []))) (\<lambda>ingredients.
        bind_e (ingredients_loop uuid4 ?rid ingredients
                     (st\<lparr>normalized_recipes := normalized_recipes st @ [r']\<rparr>)) (\<lambda>st1.
        bind_e (py_iter (dict_get_default (h a) ''steps'' (VList []))) (\<lambda>steps.
             steps_loop uuid4 ?rid steps st1))))"
      proof (rule bind_e_rel[where R = "(=)"])
        show "rel_sum (=) (=) (py_iter (dict_get_default (h a) ''ingredients'' (VList [])))
            (py_iter (dict_get_default (h a) ''ingredients'' (VList [])))"
          by (simp add: sum.rel_eq)
      next
        fix xs xs' :: "pyval list" assume "xs = xs'"
        let ?s0 = "s\<lparr>heap := (heap s)(next_addr s := r),
                        next_addr := Suc (next_addr s),
                        normalized_recipes_refs := normalized_recipes_refs s @ [next_addr s]\<rparr>"
        let ?st0 = "st\<lparr>normalized_recipes := normalized_recipes st @ [r']\<rparr>"
        have al0: "allocated n h ?s0" by (rule allocated_recipe[OF al])
        have sr0: "same_rows ?s0 ?st0"
          unfolding \<open>r = r'\<close>[symmetric] by (rule same_rows_recipe[OF al sr])
        show "rel_sum (=) same_rows
          (bind_e (ingredients_loop_refs uuid4 ?rid xs ?s0) (\<lambda>s1.
           bind_e (py_iter (dict_get_default (heap s1 a) ''steps'' (VList []))) (\<lambda>steps.
             steps_loop_refs uuid4 ?rid steps s1)))
          (bind_e (ingredients_loop uuid4 ?rid xs' ?st0) (\<lambda>st1.
           bind_e (py_iter (dict_get_default (h a) ''steps'' (VList []))) (\<lambda>steps.
             steps_loop uuid4 ?rid steps st1)))"
        proof (rule bind_e_rel[where R = same_rows])
          show "rel_sum (=) same_rows (ingredients_loop_refs uuid4 ?rid xs ?s0)
              (ingredients_loop uuid4 ?rid xs' ?st0)"
            unfolding \<open>xs = xs'\<close>[symmetric] by (rule ingredients_loop_refs_rows[OF al0 sr0])
        next
          fix s1 st1 assume i: "ingredients_loop_refs uuid4 ?rid xs ?s0 = Inr s1"
            and sr1: "same_rows s1 st1"
          from ingredients_loop_refs_allocated[OF i al0] have al1: "allocated n h s1" .
          with a have h1: "heap s1 a = h a" by (simp add: allocated_def)
          show "rel_sum (=) same_rows
            (bind_e (py_iter (dict_get_default (heap s1 a) ''steps'' (VList []))) (\<lambda>steps.
               steps_loop_refs uuid4 ?rid steps s1))
            (bind_e (py_iter (dict_get_default (h a) ''steps'' (VList []))) (\<lambda>steps.
               steps_loop uuid4 ?rid steps st1))"
            unfolding h1
          proof (rule bind_e_rel[where R = "(=)"])
            show "rel_sum (=) (=) (py_iter (dict_get_default (h a) ''steps'' (VList [])))
              (py_iter (dict_get_default (h a) ''steps'' (VList [])))"
              by (simp add: sum.rel_eq)
          next
            fix ys ys' :: "pyval list" assume "ys = ys'"
            then show "rel_sum (=) same_rows (steps_loop_refs uuid4 ?rid ys s1)
                (steps_loop uuid4 ?rid ys' st1)"
              using steps_loop_refs_rows[OF al1 sr1] by simp
          qed
        qed
      qed
    qed
    with True ha show ?thesis
      by (simp add: normalize_recipe_refs_def normalize_recipe_def Let_def)
  qed
qed

lemma recipes_loop_refs_rows:
  "allocated n h s \<Longrightarrow> same_rows s st \<Longrightarrow> set as \<subseteq> {..< n} \<Longrightarrow>
   rel_sum (=) same_rows (recipes_loop_refs uuid4 as s) (recipes_loop uuid4 (map h as) st)"
proof (induction as arbitrary: s st)
  case Nil
  then show ?case by simp
next
  case (Cons a as)
  from Cons.prems(3) have a: "a < n" and as: "set as \<subseteq> {..< n}" by simp_all
  have "rel_sum (=) same_rows
      (bind_e (normalize_recipe_refs uuid4 a s) (recipes_loop_refs uuid4 as))
      (bind_e (normalize_recipe uuid4 (h a) st) (recipes_loop uuid4 (map h as)))"
  proof (rule bind_e_rel[where R = same_rows])
    show "rel_sum (=) same_rows (normalize_recipe_refs uuid4 a s) (normalize_recipe uuid4 (h a) st)"
      by (rule normalize_recipe_refs_rows[OF Cons.prems(1) Cons.prems(2) a])
  next
    fix s1 st1 assume n1: "normalize_recipe_refs uuid4 a s = Inr s1" and sr1: "same_rows s1 st1"
    from normalize_recipe_refs_allocated[OF n1 Cons.prems(1)] have "allocated n h s1" .
    from Cons.IH[OF this sr1 as]
    show "rel_sum (=) same_rows (recipes_loop_refs uuid4 as s1) (recipes_loop uuid4 (map h as) st1)" .
  qed
  then show ?case by simp
qed

lemma interactions_loop_refs_rows:
  "distinct as \<Longrightarrow>
   rel_sum (=) (\<lambda>s' ys. map (heap s') as = ys)
     (interactions_loop_refs as s) (interactions_loop (map (heap s) as))"
proof (induction as arbitrary: s)
  case Nil
  then show ?case by simp
next
  case (Cons a as)
  from Cons.prems have na: "a \<notin> set as" and d: "distinct as" by simp_all
  show ?case
  proof (cases "convert_timestamp (heap s a)")
    case (Inl e)
    then show ?thesis by simp
  next
    case (Inr d')
    let ?s = "s\<lparr>heap := (heap s)(a := d')\<rparr>"
    from na have m: "map (heap ?s) as = map (heap s) as" by simp
    from Cons.IH[OF d, of ?s] have ih: "rel_sum (=) (\<lambda>s' ys. map (heap s') as = ys)
        (interactions_loop_refs as ?s) (interactions_loop (map (heap s) as))"
      unfolding m .
    show ?thesis
    proof (cases "interactions_loop_refs as ?s")
      case (Inl e)
      with ih Inr show ?thesis by (cases "interactions_loop (map (heap s) as)") simp_all
    next
      case r: (Inr s')
      from interactions_loop_refs_Inr[OF r] na have "heap s' a = d'" by simp
      with ih Inr r show ?thesis by (cases "interactions_loop (map (heap s) as)") simp_all
    qed
  qed
qed

lemma same_rows_initial:
  "same_rows \<lparr>heap = h, next_addr = n, normalized_recipes_refs = [],
         normalized_ingredients_refs = [], normalized_steps_refs = [],
         uuid_calls_refs = 0\<rparr>
     \<lparr>normalized_recipes = [], normalized_ingredients = [], normalized_steps = [],
         uuid_calls = 0\<rparr>"
  by (simp add: same_rows_def)

lemma transform_and_normalize_refs_frames:
  assumes "set recipes_data \<union> set interactions_data \<subseteq> {..< n}"
    and "distinct interactions_data"
  shows "map_sum id fst (transform_and_normalize_refs uuid4 h n recipes_data interactions_data)
       = frames_of (transform_and_normalize uuid4 (map h recipes_data) (map h interactions_data))"
proof -
  let ?s0 = "\<lparr>heap = h, next_addr = n, normalized_recipes_refs = [],
         normalized_ingredients_refs = [], normalized_steps_refs = [],
         uuid_calls_refs = 0\<rparr>"
  let ?st0 = "\<lparr>normalized_recipes = [], normalized_ingredients = [], normalized_steps = [],
         uuid_calls = 0\<rparr>"
  from assms(1) have rs: "set recipes_data \<subseteq> {..< n}" and ins: "set interactions_data \<subseteq> {..< n}"
    by simp_all
  note rel = recipes_loop_refs_rows[OF allocated_initial same_rows_initial rs, of uuid4 h]
  show ?thesis
  proof (cases "recipes_loop_refs uuid4 recipes_data ?s0")
    case (Inl e)
    with rel show ?thesis
      by (cases "recipes_loop uuid4 (map h recipes_data) ?st0")
         (simp_all add: transform_and_normalize_refs_def transform_and_normalize_def frames_of_def)
  next
    case s1: (Inr s1)
    with rel obtain st where st: "recipes_loop uuid4 (map h recipes_data) ?st0 = Inr st"
      and sr: "same_rows s1 st"
      by (cases "recipes_loop uuid4 (map h recipes_data) ?st0") simp_all
    from recipes_loop_refs_allocated[OF s1 allocated_initial] have al: "allocated n h s1" .
    with ins have "map (heap s1) interactions_data = map h interactions_data"
      by (auto simp: allocated_def)
    with interactions_loop_refs_rows[OF assms(2), of s1]
    have irel: "rel_sum (=) (\<lambda>s' ys. map (heap s') interactions_data = ys)
        (interactions_loop_refs interactions_data s1) (interactions_loop (map h interactions_data))"
      by simp
    show ?thesis
    proof (cases "interactions_loop_refs interactions_data s1")
      case (Inl e)
      with irel s1 st show ?thesis
        by (cases "interactions_loop (map h interactions_data)")
           (simp_all add: transform_and_normalize_refs_def transform_and_normalize_def frames_of_def)
    next
      case s2: (Inr s2)
      with irel obtain ys where ys: "interactions_loop (map h interactions_data) = Inr ys"
        and m: "map (heap s2) interactions_data = ys"
        by (cases "interactions_loop (map h interactions_data)") simp_all
      from interactions_loop_refs_Inr[OF s2] have
        out: "\<And>a. a \<notin> set interactions_data \<Longrightarrow> heap s2 a = heap s1 a"
        and lists: "normalized_recipes_refs s2 = normalized_recipes_refs s1"
        "normalized_ingredients_refs s2 = normalized_ingredients_refs s1"
        "normalized_steps_refs s2 = normalized_steps_refs s1"
        by simp_all
      from al ins have "set (new_records s1) \<inter> set interactions_data = {}"
        by (auto simp: allocated_def)
      then have "map (heap s2) (normalized_recipes_refs s1) = map (heap s1) (normalized_recipes_refs s1)"
        "map (heap s2) (normalized_ingredients_refs s1) = map (heap s1) (normalized_ingredients_refs s1)"
        "map (heap s2) (normalized_steps_refs s1) = map (heap s1) (normalized_steps_refs s1)"
        using out by (auto simp: new_records_def)
      with sr lists s1 s2 st ys m show ?thesis
        by (simp add: transform_and_normalize_refs_def transform_and_normalize_def frames_of_def
            same_rows_def)
    qed
  qed
qed




lemma transform_and_normalize_refs_returns:
  assumes "set recipes_data \<union> set interactions_data \<subseteq> {..< n}"
    and "distinct interactions_data"
    and "list_all (\<lambda>a. well_formed_recipe (h a)) recipes_data"
    and "list_all (\<lambda>a. well_formed_interaction (h a)) interactions_data"
  shows "\<exists>fr s'. transform_and_normalize_refs uuid4 h n recipes_data interactions_data = Inr (fr, s')"
proof -
  from assms(3) have r: "list_all well_formed_recipe (map h recipes_data)"
    by (simp add: list_all_iff)
  from assms(4) have i: "list_all well_formed_interaction (map h interactions_data)"
    by (simp add: list_all_iff)
  from transform_and_normalize_returns[OF r i] obtain res where
    "transform_and_normalize uuid4 (map h recipes_data) (map h interactions_data) = Inr res"
    by blast
  with transform_and_normalize_refs_frames[OF assms(1) assms(2), of uuid4 h]
  have "\<exists>x. map_sum id fst (transform_and_normalize_refs uuid4 h n recipes_data interactions_data)
      = Inr x"
    by (simp add: frames_of_def)
  then show ?thesis
    by (cases "transform_and_normalize_refs uuid4 h n recipes_data interactions_data") auto
qed






section \<open>Properties of the insight engine\<close>

subsection \<open>Grouping, sorting, merging\<close>

lemma groupby_size_keys:
  "map fst (groupby_size ks) = sort (remdups ks)"
  by (simp add: groupby_size_def comp_def)

lemma groupby_size_distinct: "distinct (map fst (groupby_size ks))"
  by (simp add: groupby_size_keys)

lemma groupby_size_sorted: "sorted (map fst (groupby_size ks))"
  by (simp add: groupby_size_keys)

lemma groupby_size_set:
  "set (groupby_size ks) = {(k, count_list ks k) | k. k \<in> set ks}"
  by (auto simp: groupby_size_def)

lemma groupby_size_length: "length (groupby_size ks) = card (set ks)"
  by (simp add: groupby_size_def length_remdups_card_conv)

lemma groupby_size_sum: "sum_list (map snd (groupby_size ks)) = length ks"
proof -
  have "sum_list (map snd (groupby_size ks)) = sum_list (map (count_list ks) (sort (remdups ks)))"
    by (simp add: groupby_size_def comp_def)
  also have "\<dots> = sum (count_list ks) (set (sort (remdups ks)))"
    by (rule sum_list_distinct_conv_sum_set) simp
  also have "\<dots> = length ks"
    by (simp add: sum_count_set)
  finally show ?thesis .
qed

lemma groupby_size_Nil: "groupby_size ks = [] \<longleftrightarrow> ks = []"
proof -
  have "groupby_size ks = [] \<longleftrightarrow> set (sort (remdups ks)) = {}"
    unfolding groupby_size_def by (simp only: map_is_Nil_conv set_empty)
  then show ?thesis by simp
qed

lemma set_insert_desc: "set (insert_desc f x ys) = insert x (set ys)"
  by (induction ys) auto

lemma length_insert_desc: "length (insert_desc f x ys) = Suc (length ys)"
  by (induction ys) auto

lemma set_sort_values_desc: "set (sort_values_desc f xs) = set xs"
  by (induction xs) (simp_all add: sort_values_desc_def set_insert_desc)

lemma length_sort_values_desc: "length (sort_values_desc f xs) = length xs"
  by (induction xs) (simp_all add: sort_values_desc_def length_insert_desc)

lemma sort_values_desc_Cons:
  "sort_values_desc f (x # xs) = insert_desc f x (sort_values_desc f xs)"
  by (simp add: sort_values_desc_def)

lemma sorted_insert_desc:
  assumes "sorted_wrt (\<lambda>a b. f b < f a \<or> (f a = f b \<and> R a b)) ys"
    and "\<forall>y \<in> set ys. R x y"
  shows "sorted_wrt (\<lambda>a b. f b < f a \<or> (f a = f b \<and> R a b)) (insert_desc f x ys)"
  using assms
proof (induction ys)
  case Nil
  then show ?case by simp
next
  case (Cons y ys)
  show ?case
  proof (cases "f y \<le> f x")
    case True
    have "f z < f x \<or> (f x = f z \<and> R x z)" if "z \<in> set (y # ys)" for z
    proof -
      from Cons.prems(1) that have "f z \<le> f y" by auto
      with True that Cons.prems(2) show ?thesis by auto
    qed
    with True Cons.prems(1) show ?thesis by simp
  next
    case False
    with Cons show ?thesis by (auto simp: set_insert_desc)
  qed
qed

lemma sorted_sort_values_desc:
  "sorted_wrt R xs \<Longrightarrow>
   sorted_wrt (\<lambda>a b. f b < f a \<or> (f a = f b \<and> R a b)) (sort_values_desc f xs)"
proof (induction xs)
  case Nil
  then show ?case by (simp add: sort_values_desc_def)
next
  case (Cons x xs)
  then show ?case
    by (simp add: sort_values_desc_Cons sorted_insert_desc set_sort_values_desc)
qed

lemma sort_values_desc_hd_max:
  assumes "sort_values_desc f xs = y # ys" and "z \<in> set xs"
  shows "f z \<le> f y"
proof -
  have "sorted_wrt (\<lambda>a b. True) xs" by (induction xs) simp_all
  from sorted_sort_values_desc[OF this, of f] assms(1)
  have "\<forall>b \<in> set ys. f b \<le> f y" by auto
  moreover from assms have "z \<in> set (y # ys)"
    by (metis set_sort_values_desc)
  ultimately show ?thesis by auto
qed

lemma set_pd_merge:
  "set (pd_merge lkey rkey left right)
     = {(l, r). l \<in> set left \<and> r \<in> set right \<and> rkey r = lkey l}"
  by (auto simp: pd_merge_def)

lemma sorted_pd_merge:
  assumes "sorted_wrt P left" and "\<And>l. P l l"
  shows "sorted_wrt (\<lambda>a b. P (fst a) (fst b)) (pd_merge lkey rkey left right)"
  using assms(1)
proof (induction left)
  case Nil
  then show ?case by (simp add: pd_merge_def)
next
  case (Cons l left)
  have 1: "sorted_wrt (\<lambda>a b. P (fst a) (fst b))
      (map (\<lambda>r. (l, r)) (filter (\<lambda>r. rkey r = lkey l) right))"
    by (simp add: sorted_wrt_map sorted_wrt_true assms(2))
  have 2: "sorted_wrt (\<lambda>a b. P (fst a) (fst b)) (pd_merge lkey rkey left right)"
    using Cons by simp
  have "pd_merge lkey rkey (l # left) right
      = map (\<lambda>r. (l, r)) (filter (\<lambda>r. rkey r = lkey l) right) @ pd_merge lkey rkey left right"
    by (simp add: pd_merge_def)
  with 1 2 Cons.prems show ?case
    by (auto simp: sorted_wrt_append set_pd_merge)
qed

lemma to_dict_Nil: "to_dict [] = []"
  by (simp add: to_dict_def)

lemma to_dict_single: "to_dict [(k, v)] = [(k, v)]"
  by (simp add: to_dict_def)

subsection \<open>Insight 8\<close>

lemma dropna_set: "set (dropna ks) = {k. Some k \<in> set ks}"
  by (induction ks) (auto simp: dropna_def split: option.splits)

lemma dropna_length: "length (dropna ks) = length (filter (\<lambda>k. k \<noteq> None) ks)"
  by (induction ks) (auto simp: dropna_def split: option.splits)

lemma dropna_Nil: "dropna ks = [] \<longleftrightarrow> (\<forall>k \<in> set ks. k = None)"
  by (induction ks) (auto simp: dropna_def split: option.splits)

text \<open>
  C7, as the code has it. For a Step set in which at least one row has a recipe\_id,
  insight 8 is the number of Step rows that have a recipe\_id divided by the number of
  distinct recipe\_ids in the Step set, rounded to two decimals (\<open>round2\<close>). Rows whose
  recipe\_id is null are counted neither above nor below the line. The recipe set is no
  argument of the computation, so recipes without steps have no influence.
\<close>

theorem insight8_is_rows_per_distinct_recipe:
  assumes "\<exists>s \<in> set steps. s_recipe_id s \<noteq> None"
  shows "insight8 round2 steps =
     Inr (round2 (of_nat (length (filter (\<lambda>s. s_recipe_id s \<noteq> None) steps))
                  / of_nat (card {k. Some k \<in> s_recipe_id ` set steps})))"
proof -
  let ?ks = "dropna (map s_recipe_id steps)"
  from assms have ne: "?ks \<noteq> []" by (auto simp: dropna_Nil)
  have l: "length ?ks = length (filter (\<lambda>s. s_recipe_id s \<noteq> None) steps)"
    by (simp add: dropna_length filter_map comp_def)
  have c: "card (set ?ks) = card {k. Some k \<in> s_recipe_id ` set steps}"
    by (simp add: dropna_set)
  from ne show ?thesis
    by (simp add: insight8_def mean_group_size_def Let_def groupby_size_Nil groupby_size_sum
        groupby_size_length l c)
qed

theorem insight8_is_rows_per_distinct_recipe_witness:
  "(\<exists>s \<in> set example_steps. s_recipe_id s \<noteq> None)
   \<and> insight8 round_2dp example_steps =
     Inr (round_2dp (of_nat (length (filter (\<lambda>s. s_recipe_id s \<noteq> None) example_steps))
                  / of_nat (card {k. Some k \<in> s_recipe_id ` set example_steps})))"
proof -
  have h: "\<exists>s \<in> set example_steps. s_recipe_id s \<noteq> None"
    by (simp add: example_steps_def)
  from h insight8_is_rows_per_distinct_recipe[OF h, of round_2dp] show ?thesis by (rule conjI)
qed

text \<open>
  The statement of the specification counts all Step rows. With two steps of R1, one of R2
  and one row without recipe\_id the code reports 3/2, the specification's quotient is 2.
\<close>

theorem insight8_null_key_counterexample:
  "insight8 round_2dp example_steps = Inr (3 / 2)
   \<and> insight8_as_claimed round_2dp example_steps = 2
   \<and> insight8 round_2dp example_steps \<noteq> Inr (insight8_as_claimed round_2dp example_steps)"
  by (simp add: insight8_def insight8_as_claimed_def mean_group_size_def groupby_size_def
      dropna_def example_steps_def round_2dp_def round_half_even_def Let_def)

subsection \<open>Insight 10\<close>

text \<open>
  C5. With no recipe rows, insight 10 divides by zero: the computation raises
  ZeroDivisionError, whatever the interactions are, instead of reporting a sentinel.
\<close>

theorem insight10_zero_recipes_raises:
  "insight10 round2 [] interactions = Inl ZeroDivisionError"
  by (simp add: insight10_def)

subsection \<open>Insight 5\<close>

lemma count_list_map_conv: "count_list (map f xs) k = length (filter (\<lambda>x. f x = k) xs)"
  by (induction xs) auto

lemma in_set_count_list: "k \<in> set ks \<longleftrightarrow> 0 < count_list ks k"
  by (induction ks) auto




lemma views_merged_sorted:
  "sorted_wrt (\<lambda>a b. fst (fst a) \<le> fst (fst b)) (views_merged recipes interactions)"
proof -
  have "sorted (map fst (views_per_recipe interactions))"
    by (simp add: views_per_recipe_def groupby_size_sorted)
  then have "sorted_wrt (\<lambda>a b. fst a \<le> fst b) (views_per_recipe interactions)"
    by (simp add: sorted_wrt_map)
  then show ?thesis
    unfolding views_merged_def by (rule sorted_pd_merge) simp
qed

lemmas insights_eval =
  insight5_def insight5_first_encountered_def views_ranked_def views_merged_def
  stable_sort_by_views_def
  views_per_recipe_def groupby_size_def pd_merge_def sort_values_desc_def to_dict_def
  of_type_def first_encountered_def example_recipes_def example_views_def tied_recipes_def
  tied_views_def view_of_def Let_def























subsection \<open>Insight 11\<close>

lemma drop_duplicates_from_props:
  "distinct (map key (drop_duplicates_from key seen xs))
   \<and> set (map key (drop_duplicates_from key seen xs)) = key ` set xs - set seen
   \<and> set (drop_duplicates_from key seen xs) \<subseteq> set xs"
  by (induction xs arbitrary: seen) auto

lemma drop_duplicates_props:
  "distinct (map key (drop_duplicates key xs))"
  "key ` set (drop_duplicates key xs) = key ` set xs"
  "set (drop_duplicates key xs) \<subseteq> set xs"
  using drop_duplicates_from_props[of key "[]" xs] by (simp_all add: drop_duplicates_def)

lemma unique_likes_count:
  "count_list (map i_recipe_id
       (drop_duplicates (\<lambda>i. (i_recipe_id i, i_user_id i)) (of_type ''LIKE'' interactions))) k
     = distinct_likers interactions k"
proof -
  let ?key = "\<lambda>i. (i_recipe_id i, i_user_id i)"
  let ?likes = "of_type ''LIKE'' interactions"
  let ?D = "drop_duplicates ?key ?likes"
  let ?F = "filter (\<lambda>i. i_recipe_id i = k) ?D"
  have dk: "distinct (map ?key ?F)"
    using drop_duplicates_props(1)[of ?key ?likes] by (rule distinct_map_filter)
  have e: "map ?key xs = map (Pair k) (map i_user_id xs)"
    if "\<forall>x \<in> set xs. i_recipe_id x = k" for xs :: "interaction list"
    using that by (induction xs) simp_all
  have "distinct (map (Pair k) (map i_user_id ?F))"
    using dk e[of ?F] by simp
  then have d: "distinct (map i_user_id ?F)"
    by (rule distinct_map[THEN iffD1, THEN conjunct1])
  have "set (map i_user_id ?F) = i_user_id ` {i \<in> set ?likes. i_recipe_id i = k}"
  proof (intro set_eqI iffI)
    fix u assume "u \<in> set (map i_user_id ?F)"
    then show "u \<in> i_user_id ` {i \<in> set ?likes. i_recipe_id i = k}"
      using drop_duplicates_props(3)[of ?key ?likes] by auto
  next
    fix u assume "u \<in> i_user_id ` {i \<in> set ?likes. i_recipe_id i = k}"
    then obtain i where i: "i \<in> set ?likes" "i_recipe_id i = k" "i_user_id i = u" by auto
    then have "?key i \<in> ?key ` set ?likes" by (intro imageI)
    then have "?key i \<in> ?key ` set ?D"
      by (simp only: drop_duplicates_props(2))
    then obtain j where j: "j \<in> set ?D" "?key j = ?key i" by auto
    from j(2) have jr: "i_recipe_id j = i_recipe_id i" and ju: "i_user_id j = i_user_id i"
      by simp_all
    from j(1) jr i(2) have "j \<in> set ?F" by simp
    then have "i_user_id j \<in> i_user_id ` set ?F" by (rule imageI)
    then show "u \<in> set (map i_user_id ?F)" by (simp only: set_map ju i(3))
  qed
  with distinct_card[OF d] have "length ?F = card (i_user_id ` {i \<in> set ?likes. i_recipe_id i = k})"
    by simp
  moreover have "{i \<in> set ?likes. i_recipe_id i = k}
      = {i \<in> set interactions. i_interaction_type i = ''LIKE'' \<and> i_recipe_id i = k}"
    by (auto simp: of_type_def)
  ultimately show ?thesis
    by (simp add: count_list_map_conv distinct_likers_def)
qed

lemma unique_likes_set:
  "(k, c) \<in> set (unique_likes interactions)
     \<longleftrightarrow> c = distinct_likers interactions k \<and> 0 < c"
proof -
  have "k \<in> set (map i_recipe_id
       (drop_duplicates (\<lambda>i. (i_recipe_id i, i_user_id i)) (of_type ''LIKE'' interactions)))
      \<longleftrightarrow> 0 < distinct_likers interactions k"
    unfolding unique_likes_count[symmetric] by (rule in_set_count_list)
  then show ?thesis
    unfolding unique_likes_def groupby_size_set by (auto simp: unique_likes_count)
qed

lemma liked_merged_set:
  "set (pd_merge r_recipe_id fst recipes (unique_likes interactions))
     = {(r, (k, c)). r \<in> set recipes \<and> k = r_recipe_id r
                     \<and> c = distinct_likers interactions k \<and> 0 < c}"
  unfolding set_pd_merge by (auto simp: unique_likes_set)

text \<open>
  C8. When some recipe of the recipe set has a LIKE interaction, insight 11 reports exactly
  one recipe of the recipe set together with its number of distinct users with a LIKE
  interaction on it (several LIKE events of one user on one recipe count once), and no
  recipe of the recipe set has more such users. When no recipe of the recipe set has a
  LIKE interaction, the result is empty.
\<close>

theorem insight11_most_liked:
  "(if \<exists>r \<in> set recipes. 0 < distinct_likers interactions (r_recipe_id r)
    then \<exists>r \<in> set recipes.
           insight11 recipes interactions
             = [(r_name r, distinct_likers interactions (r_recipe_id r))]
           \<and> (\<forall>r' \<in> set recipes.
                 distinct_likers interactions (r_recipe_id r')
                   \<le> distinct_likers interactions (r_recipe_id r))
    else insight11 recipes interactions = [])"
proof -
  let ?M = "pd_merge r_recipe_id fst recipes (unique_likes interactions)"
  let ?L = "sort_values_desc (\<lambda>row. snd (snd row)) ?M"
  show ?thesis
  proof (cases "\<exists>r \<in> set recipes. 0 < distinct_likers interactions (r_recipe_id r)")
    case False
    then have "set ?M = {}" unfolding liked_merged_set by auto
    then have "?L = []" by (simp add: sort_values_desc_def)
    with False show ?thesis
      by (simp add: insight11_def most_unique_liked_def to_dict_Nil)
  next
    case True
    then have "set ?M \<noteq> {}" unfolding liked_merged_set by auto
    then have "set ?L \<noteq> {}" by (metis set_sort_values_desc)
    then obtain top rest where L: "?L = top # rest" by (cases ?L) auto
    then have "top \<in> set ?M"
      by (metis list.set_intros(1) set_sort_values_desc)
    then obtain r where top: "top = (r, (r_recipe_id r, distinct_likers interactions (r_recipe_id r)))"
      and r: "r \<in> set recipes"
      unfolding liked_merged_set by auto
    have res: "insight11 recipes interactions
        = [(r_name r, distinct_likers interactions (r_recipe_id r))]"
      by (simp add: insight11_def most_unique_liked_def L top to_dict_single)
    have "distinct_likers interactions (r_recipe_id r')
        \<le> distinct_likers interactions (r_recipe_id r)" if r': "r' \<in> set recipes" for r'
    proof (cases "0 < distinct_likers interactions (r_recipe_id r')")
      case False
      then show ?thesis by simp
    next
      case True
      with r' have "(r', (r_recipe_id r', distinct_likers interactions (r_recipe_id r'))) \<in> set ?M"
        unfolding liked_merged_set by simp
      from sort_values_desc_hd_max[OF L this] show ?thesis by (simp add: top)
    qed
    with res r True show ?thesis by auto
  qed
qed

theorem insight11_most_liked_witness:
  "(\<exists>r \<in> set tied_recipes. 0 < distinct_likers example_likes (r_recipe_id r))
   \<and> (\<exists>r \<in> set tied_recipes.
           insight11 tied_recipes example_likes
             = [(r_name r, distinct_likers example_likes (r_recipe_id r))]
           \<and> (\<forall>r' \<in> set tied_recipes.
                 distinct_likers example_likes (r_recipe_id r')
                   \<le> distinct_likers example_likes (r_recipe_id r)))"
proof -
  have "like_of ''u1'' ''R2'' \<in> {i \<in> set example_likes.
      i_interaction_type i = ''LIKE'' \<and> i_recipe_id i = ''R2''}"
    by (simp add: example_likes_def like_of_def)
  then have "i_user_id ` {i \<in> set example_likes.
      i_interaction_type i = ''LIKE'' \<and> i_recipe_id i = ''R2''} \<noteq> {}"
    by blast
  then have "0 < distinct_likers example_likes ''R2''"
    by (simp add: distinct_likers_def card_gt_0_iff)
  then have h: "\<exists>r \<in> set tied_recipes. 0 < distinct_likers example_likes (r_recipe_id r)"
    by (simp add: tied_recipes_def)
  from insight11_most_liked[of tied_recipes example_likes] h
  have "\<exists>r \<in> set tied_recipes.
           insight11 tied_recipes example_likes
             = [(r_name r, distinct_likers example_likes (r_recipe_id r))]
           \<and> (\<forall>r' \<in> set tied_recipes.
                 distinct_likers example_likes (r_recipe_id r')
                   \<le> distinct_likers example_likes (r_recipe_id r))"
    by (simp only: if_P)
  with h show ?thesis by (rule conjI)
qed

text \<open>On the example, R2 has three LIKE events of one user, R3 one each of two users.\<close>

lemma insight11_example: "insight11 tied_recipes example_likes = [(''n3'', 2)]"
  by (simp add: insight11_def most_unique_liked_def unique_likes_def drop_duplicates_def
      example_likes_def like_of_def insights_eval)

end
